theory Spec2Isabelle
  imports Main
begin

section \<open>JavaScript strings\<close>

text \<open>
  Strings of the ticker are modelled as \<open>string\<close>. Case mapping covers the ASCII letters
  (every other character is left as it is) and white space is the ASCII white space
  (tab, line feed, vertical tab, form feed, carriage return, space).
\<close>

definition toLowerCase_char :: "char \<Rightarrow> char" where
  "toLowerCase_char c =
     (case map_of (zip ''ABCDEFGHIJKLMNOPQRSTUVWXYZ'' ''abcdefghijklmnopqrstuvwxyz'') c of
        Some d \<Rightarrow> d | None \<Rightarrow> c)"

definition toUpperCase_char :: "char \<Rightarrow> char" where
  "toUpperCase_char c =
     (case map_of (zip ''abcdefghijklmnopqrstuvwxyz'' ''ABCDEFGHIJKLMNOPQRSTUVWXYZ'') c of
        Some d \<Rightarrow> d | None \<Rightarrow> c)"

definition toLowerCase :: "string \<Rightarrow> string" where
  "toLowerCase s = map toLowerCase_char s"

definition toUpperCase :: "string \<Rightarrow> string" where
  "toUpperCase s = map toUpperCase_char s"

definition is_space :: "char \<Rightarrow> bool" where
  "is_space c = (c \<in> set [CHR 0x09, CHR 0x0A, CHR 0x0B, CHR 0x0C, CHR 0x0D, CHR '' ''])"

definition trim :: "string \<Rightarrow> string" where
  "trim s = rev (dropWhile is_space (rev (dropWhile is_space s)))"

definition startsWith :: "string \<Rightarrow> string \<Rightarrow> bool" where
  "startsWith s p = (take (length p) s = p)"

text \<open>\<open>s.includes(p)\<close>: \<open>p\<close> occurs in \<open>s\<close> as a contiguous substring.\<close>

fun includes_str :: "string \<Rightarrow> string \<Rightarrow> bool" where
  "includes_str [] p = (p = [])"
| "includes_str (c # cs) p = (startsWith (c # cs) p \<or> includes_str cs p)"

text \<open>\<open>s.split(d)\<close> for a one-character separator \<open>d\<close> (the source splits on the line feed).\<close>

fun split_on :: "char \<Rightarrow> string \<Rightarrow> string list" where
  "split_on d [] = [[]]"
| "split_on d (c # cs) =
     (if c = d then [] # split_on d cs
      else (case split_on d cs of [] \<Rightarrow> [[c]] | w # ws \<Rightarrow> (c # w) # ws))"

text \<open>
  \<open>s.split(/\s+/)\<close>: the pieces between maximal runs of white space. The flag tells that
  the previous character was white space, so that a run opens one piece only.
\<close>

fun split_ws_from :: "bool \<Rightarrow> string \<Rightarrow> string list" where
  "split_ws_from g [] = [[]]"
| "split_ws_from g (c # cs) =
     (if is_space c then (if g then split_ws_from True cs else [] # split_ws_from True cs)
      else (case split_ws_from False cs of [] \<Rightarrow> [[c]] | w # ws \<Rightarrow> (c # w) # ws))"

definition split_ws :: "string \<Rightarrow> string list" where
  "split_ws s = split_ws_from False s"

text \<open>\<open>/\.json(\s|$)/i.test(s)\<close>: some occurrence of \<open>.json\<close>, in any case, is followed by
  white space or ends the string.\<close>

fun test_json :: "string \<Rightarrow> bool" where
  "test_json [] = False"
| "test_json (c # cs) =
     ((startsWith (toLowerCase (c # cs)) ''.json'' \<and>
         (case drop 5 (c # cs) of [] \<Rightarrow> True | d # _ \<Rightarrow> is_space d))
      \<or> test_json cs)"

text \<open>\<open>a || d\<close> on an optional string: \<open>undefined\<close> and the empty string are falsy.\<close>

definition truthy :: "string option \<Rightarrow> bool" where
  "truthy a = (case a of None \<Rightarrow> False | Some s \<Rightarrow> s \<noteq> [])"

definition or_str :: "string option \<Rightarrow> string \<Rightarrow> string" where
  "or_str a d = (case a of None \<Rightarrow> d | Some s \<Rightarrow> if s = [] then d else s)"

section \<open>Data model\<close>

datatype service = Sports | Local | News | Weather | Tweets | Entertainment

fun service_name :: "service \<Rightarrow> string" where
  "service_name Sports = ''sports''"
| "service_name Local = ''local''"
| "service_name News = ''news''"
| "service_name Weather = ''weather''"
| "service_name Tweets = ''tweets''"
| "service_name Entertainment = ''entertainment''"

text \<open>
  An element of a headline array is a JSON object, of which the ticker reads the fields
  below (a field that is absent is \<open>None\<close>; numbers are integers, epoch milliseconds), or
  \<open>null\<close>. An element is therefore an \<open>item option\<close>, with \<open>None\<close> for \<open>null\<close>: reading a
  field of \<open>null\<close> raises a TypeError in the source.
\<close>

record item =
  source :: "string option"
  title :: "string option"
  text_field :: "string option"
  headline :: "string option"
  url :: "string option"
  ts :: "int option"
  hashtag :: "string option"
  username :: "string option"
  comment :: "string option"

datatype error = NetworkError | HttpError | PayloadError | TypeError | StorageError

text \<open>
  What \<open>response.json()\<close> yields: an array, an object (of which only the fields \<open>items\<close>
  and \<open>tweets\<close> are read, each an array or not), \<open>null\<close>, or another scalar.
\<close>

datatype payload =
    PArray "item option list"
  | PObject "item option list option" "item option list option"
  | PNull
  | PScalar

text \<open>A response: its \<open>ok\<close> flag, its body as text, and its body parsed as JSON
  (\<open>None\<close> when parsing fails).\<close>

record response =
  ok :: bool
  body :: string
  json :: "payload option"

text \<open>
  The value under a key of \<open>localStorage\<close>: a string that \<open>JSON.parse\<close> rejects, or the
  document \<open>{headlines, timestamp}\<close> that \<open>saveToCache\<close> writes. \<open>JSON.stringify\<close> followed by
  \<open>JSON.parse\<close> is taken to give back the list it was given.
\<close>

datatype stored = Unparseable | Entry "item option list" int

text \<open>
  The world outside the ticker: \<open>fetch\<close> gives the response to a URL (\<open>None\<close> when the
  promise is rejected), and the two flags tell whether \<open>localStorage.getItem\<close> and
  \<open>localStorage.setItem\<close> raise.
\<close>

record env =
  fetch :: "string \<Rightarrow> response option"
  getItem_throws :: bool
  setItem_throws :: bool

text \<open>
  The ticker object once \<open>setupTicker\<close> has run (the container, the ticker list and the
  offline badge exist), together with \<open>localStorage\<close>. \<open>tickerList\<close> holds the headlines
  whose elements are the children of the list element.
\<close>

record NewsTicker =
  endpoint :: string
  maxHeadlines :: nat
  headlines :: "item option list"
  offlineMode :: bool
  currentService :: service
  lastUpdate :: int
  tickerList :: "item option list"
  localStorage :: "string \<rightharpoonup> stored"

text \<open>\<open>options.maxHeadlines || 50\<close>: an absent or zero option gives the default.\<close>

definition options_maxHeadlines :: "nat option \<Rightarrow> nat" where
  "options_maxHeadlines opt = (case opt of None \<Rightarrow> 50 | Some n \<Rightarrow> if n = 0 then 50 else n)"

text \<open>A call returns normally with a value, or throws; either way the object is left in
  the state it had reached.\<close>

datatype 'a completion = Normal 'a NewsTicker | Throw error NewsTicker

text \<open>The tag of a resolution: which stage produced the list that \<open>loadHeadlines\<close> left in
  \<open>headlines\<close>.\<close>

datatype FetchOutcome =
    Remote "item option list"
  | Fallback "item option list"
  | Cache "item option list"
  | Empty

section \<open>The cache\<close>

definition cacheKey :: "NewsTicker \<Rightarrow> string" where
  "cacheKey s = ''news-ticker-cache-'' @ service_name (currentService s)"

definition getItem :: "env \<Rightarrow> (string \<rightharpoonup> stored) \<Rightarrow> string \<Rightarrow> error + stored option" where
  "getItem e st k = (if getItem_throws e then Inl StorageError else Inr (st k))"

definition setItem ::
  "env \<Rightarrow> (string \<rightharpoonup> stored) \<Rightarrow> string \<Rightarrow> stored \<Rightarrow> error + (string \<rightharpoonup> stored)" where
  "setItem e st k v = (if setItem_throws e then Inl StorageError else Inr (st(k \<mapsto> v)))"

text \<open>
  The instant \<open>now\<close> given to a function is what \<open>Date.now()\<close> returns during the call.
  \<open>saveToCache\<close> and \<open>loadFromCache\<close> catch every exception of their bodies, so they
  return a state and no completion; on an exception the state is the one reached.
\<close>

definition saveToCache :: "env \<Rightarrow> int \<Rightarrow> NewsTicker \<Rightarrow> NewsTicker" where
  "saveToCache e now s =
     (case setItem e (localStorage s) (cacheKey s) (Entry (headlines s) now) of
        Inl err \<Rightarrow> s
      | Inr st \<Rightarrow> s\<lparr>localStorage := st\<rparr>)"

text \<open>
  \<open>renderHeadlines\<close>: nothing to do for an empty list; otherwise the list element is
  emptied, an element is built for each headline (a \<open>null\<close> headline raises there), the
  elements are appended twice, and the list is saved to the cache.
\<close>

definition renderHeadlines :: "env \<Rightarrow> int \<Rightarrow> NewsTicker \<Rightarrow> unit completion" where
  "renderHeadlines e now s =
     (if headlines s = [] then Normal () s
      else if None \<in> set (headlines s) then Throw TypeError (s\<lparr>tickerList := []\<rparr>)
      else Normal () (saveToCache e now (s\<lparr>tickerList := headlines s @ headlines s\<rparr>)))"

definition loadFromCache :: "env \<Rightarrow> int \<Rightarrow> NewsTicker \<Rightarrow> NewsTicker" where
  "loadFromCache e now s =
     (case getItem e (localStorage s) (cacheKey s) of
        Inl err \<Rightarrow> s
      | Inr None \<Rightarrow> s
      | Inr (Some Unparseable) \<Rightarrow> s
      | Inr (Some (Entry hs t)) \<Rightarrow>
          if now - t < 3600000 then
            (case renderHeadlines e now (s\<lparr>headlines := hs\<rparr>) of
               Normal u s' \<Rightarrow> s'
             | Throw err s' \<Rightarrow> s')
          else s\<lparr>localStorage := (localStorage s)(cacheKey s := None)\<rparr>)"

text \<open>Successive cache reads, at the instants of the list.\<close>

fun loadFromCache_at :: "env \<Rightarrow> int list \<Rightarrow> NewsTicker \<Rightarrow> NewsTicker" where
  "loadFromCache_at e [] s = s"
| "loadFromCache_at e (t # rest) s = loadFromCache_at e rest (loadFromCache e t s)"

text \<open>Each instant of the list is less than an hour after the one before it, the first
  one less than an hour after \<open>t0\<close>.\<close>

fun within_hour :: "int \<Rightarrow> int list \<Rightarrow> bool" where
  "within_hour t0 [] = True"
| "within_hour t0 (t # rest) = (t - t0 < 3600000 \<and> within_hour t rest)"

section \<open>The remote fetch: sorting and capping\<close>

definition isPlymouth :: "item \<Rightarrow> bool" where
  "isPlymouth a =
     (includes_str (toLowerCase (or_str (source a) [])) ''plymouth'' \<or>
      includes_str (toLowerCase (or_str (source a) [])) ''pafc'')"

text \<open>\<open>a.ts || 0\<close>.\<close>

definition ts_or_0 :: "item \<Rightarrow> int" where
  "ts_or_0 a = (case ts a of None \<Rightarrow> 0 | Some t \<Rightarrow> t)"

text \<open>The comparison function given to \<open>sort\<close>; on \<open>null\<close> it raises.\<close>

definition compareHeadlines :: "service \<Rightarrow> item option \<Rightarrow> item option \<Rightarrow> error + int" where
  "compareHeadlines svc x y =
     (case x of None \<Rightarrow> Inl TypeError
      | Some a \<Rightarrow>
        (case y of None \<Rightarrow> Inl TypeError
         | Some b \<Rightarrow>
            Inr (if svc = Sports \<and> isPlymouth a \<and> \<not> isPlymouth b then - 1
                 else if svc = Sports \<and> \<not> isPlymouth a \<and> isPlymouth b then 1
                 else ts_or_0 b - ts_or_0 a)))"

text \<open>
  \<open>Array.prototype.sort\<close> with a comparison function is a stable sort; it is modelled as
  the insertion sort that keeps equal elements in their order. An exception of the
  comparison function ends the sort. With two elements or more every element is
  compared at least once.
\<close>

fun insert_sorted :: "('a \<Rightarrow> 'a \<Rightarrow> error + int) \<Rightarrow> 'a \<Rightarrow> 'a list \<Rightarrow> error + 'a list" where
  "insert_sorted cmp x [] = Inr [x]"
| "insert_sorted cmp x (y # ys) =
     (case cmp x y of
        Inl err \<Rightarrow> Inl err
      | Inr c \<Rightarrow>
          if c \<le> 0 then Inr (x # y # ys)
          else (case insert_sorted cmp x ys of
                  Inl err \<Rightarrow> Inl err
                | Inr zs \<Rightarrow> Inr (y # zs)))"

fun Array_sort :: "('a \<Rightarrow> 'a \<Rightarrow> error + int) \<Rightarrow> 'a list \<Rightarrow> error + 'a list" where
  "Array_sort cmp [] = Inr []"
| "Array_sort cmp (x # xs) =
     (case Array_sort cmp xs of
        Inl err \<Rightarrow> Inl err
      | Inr ys \<Rightarrow> insert_sorted cmp x ys)"

definition remote_endpoint :: "NewsTicker \<Rightarrow> string" where
  "remote_endpoint s =
     (if currentService s \<noteq> News
      then endpoint s @ ''?service='' @ service_name (currentService s)
      else endpoint s)"

text \<open>The body of the \<open>try\<close> block of \<open>loadHeadlines\<close>.\<close>

definition loadHeadlines_try :: "env \<Rightarrow> int \<Rightarrow> NewsTicker \<Rightarrow> unit completion" where
  "loadHeadlines_try e now s =
     (let s1 = s\<lparr>headlines := []\<rparr> in
      case fetch e (remote_endpoint s1) of
        None \<Rightarrow> Throw NetworkError s1
      | Some r \<Rightarrow>
          if \<not> ok r then Throw HttpError s1
          else
            (case json r of
               None \<Rightarrow> Throw PayloadError s1
             | Some (PArray xs) \<Rightarrow>
                 (case Array_sort (compareHeadlines (currentService s1)) xs of
                    Inl err \<Rightarrow> Throw err s1
                  | Inr sorted_xs \<Rightarrow>
                      (case renderHeadlines e now
                              (s1\<lparr>headlines := take (maxHeadlines s1) sorted_xs,
                                  offlineMode := False\<rparr>) of
                         Throw err s2 \<Rightarrow> Throw err s2
                       | Normal u s2 \<Rightarrow> Normal () (s2\<lparr>lastUpdate := now\<rparr>)))
             | Some other \<Rightarrow> Throw TypeError s1))"

section \<open>The static fallback\<close>

fun fallback_file :: "service \<Rightarrow> string" where
  "fallback_file Sports = ''news-sports.txt''"
| "fallback_file Local = ''news-local.txt''"
| "fallback_file News = ''news.txt''"
| "fallback_file Weather = ''news-weather.txt''"
| "fallback_file Tweets = ''news-tweets.txt''"
| "fallback_file Entertainment = ''news-entertainment.txt''"

text \<open>
  The text resource: the backup file at the root, then relative, then the file at the
  root, then relative; a response that is not ok leads to the next URL, a rejected
  fetch ends the attempt.
\<close>

definition fetch_txt :: "env \<Rightarrow> string \<Rightarrow> error + response" where
  "fetch_txt e file =
     (case fetch e (''/backup-'' @ file) of
        None \<Rightarrow> Inl NetworkError
      | Some r1 \<Rightarrow>
          (case (if \<not> ok r1 then fetch e (''backup-'' @ file) else Some r1) of
             None \<Rightarrow> Inl NetworkError
           | Some r2 \<Rightarrow>
               (case (if \<not> ok r2
                      then (case fetch e (''/'' @ file) of
                              None \<Rightarrow> None
                            | Some r3 \<Rightarrow> if \<not> ok r3 then fetch e file else Some r3)
                      else Some r2) of
                  None \<Rightarrow> Inl NetworkError
                | Some r \<Rightarrow> if \<not> ok r then Inl HttpError else Inr r)))"

text \<open>The JSON resource of a path: at the root, then as written.\<close>

definition fetch_json :: "env \<Rightarrow> string \<Rightarrow> error + payload" where
  "fetch_json e jsonPath =
     (case fetch e (if startsWith jsonPath ''/'' then jsonPath else ''/'' @ jsonPath) of
        None \<Rightarrow> Inl NetworkError
      | Some r1 \<Rightarrow>
          (case (if \<not> ok r1 then fetch e jsonPath else Some r1) of
             None \<Rightarrow> Inl NetworkError
           | Some r \<Rightarrow>
               if \<not> ok r then Inl HttpError
               else (case json r of None \<Rightarrow> Inl PayloadError | Some d \<Rightarrow> Inr d)))"

text \<open>The array of a payload: the payload, or its \<open>items\<close>, or its \<open>tweets\<close>, or nothing;
  reading a field of \<open>null\<close> raises.\<close>

fun items_of :: "payload \<Rightarrow> error + item option list" where
  "items_of (PArray xs) = Inr xs"
| "items_of (PObject (Some xs) tw) = Inr xs"
| "items_of (PObject None (Some ys)) = Inr ys"
| "items_of (PObject None None) = Inr []"
| "items_of PNull = Inl TypeError"
| "items_of PScalar = Inr []"

text \<open>\<open>xs.map(f)\<close> for an \<open>f\<close> that may raise.\<close>

fun map_items :: "('a \<Rightarrow> error + 'b) \<Rightarrow> 'a list \<Rightarrow> error + 'b list" where
  "map_items f [] = Inr []"
| "map_items f (x # xs) =
     (case f x of
        Inl err \<Rightarrow> Inl err
      | Inr y \<Rightarrow> (case map_items f xs of Inl err \<Rightarrow> Inl err | Inr ys \<Rightarrow> Inr (y # ys)))"

definition new_headline :: "string \<Rightarrow> string \<Rightarrow> string \<Rightarrow> int \<Rightarrow> item" where
  "new_headline src ttl link t =
     \<lparr>source = Some src, title = Some ttl, text_field = None, headline = None,
      url = Some link, ts = Some t, hashtag = None, username = None, comment = None\<rparr>"

text \<open>\<open>item.ts || now\<close>.\<close>

definition ts_or :: "item \<Rightarrow> int \<Rightarrow> int" where
  "ts_or i now = (case ts i of None \<Rightarrow> now | Some t \<Rightarrow> if t = 0 then now else t)"

definition tweet_title :: "item \<Rightarrow> string" where
  "tweet_title i =
     trim (or_str (hashtag i) [] @ '' @'' @ or_str (username i) ''user'' @ '': '' @
           or_str (comment i) (or_str (text_field i) []))"

text \<open>The adapter of the directive branch.\<close>

definition mapItemToHeadline :: "service \<Rightarrow> int \<Rightarrow> item option \<Rightarrow> error + item option" where
  "mapItemToHeadline svc now x =
     (case x of
        None \<Rightarrow> Inl TypeError
      | Some i \<Rightarrow>
          Inr (Some
            (if svc = Tweets then
               new_headline ''TWITTER'' (tweet_title i)
                 (if truthy (username i) then ''https://twitter.com/'' @ or_str (username i) []
                  else or_str (url i) ''#'')
                 now
             else
               new_headline (toUpperCase (or_str (source i) (service_name svc)))
                 (or_str (title i) (or_str (text_field i) (or_str (headline i) [])))
                 (or_str (url i) ''#'')
                 (ts_or i now))))"

text \<open>The adapter of the branch that follows a line naming a \<open>.json\<close> file.\<close>

definition mapItemToHeadline_direct ::
  "service \<Rightarrow> int \<Rightarrow> item option \<Rightarrow> error + item option" where
  "mapItemToHeadline_direct svc now x =
     (case x of
        None \<Rightarrow> Inl TypeError
      | Some i \<Rightarrow>
          Inr (Some
            (new_headline (toUpperCase (or_str (source i) (service_name svc)))
               (or_str (title i) (tweet_title i))
               (or_str (url i)
                  (if truthy (username i) then ''https://twitter.com/'' @ or_str (username i) []
                   else ''#''))
               (ts_or i now))))"

definition txt_lines :: "string \<Rightarrow> string list" where
  "txt_lines txt =
     filter (\<lambda>l. l \<noteq> [] \<and> \<not> startsWith l ''#'') (map trim (split_on (CHR 0x0A) txt))"

definition is_service_directive :: "service \<Rightarrow> string \<Rightarrow> bool" where
  "is_service_directive svc l = startsWith (toLowerCase l) (service_name svc @ ''-file'')"

definition is_json_directive :: "string \<Rightarrow> bool" where
  "is_json_directive l = startsWith (toLowerCase l) ''json-file''"

definition find_directive :: "service \<Rightarrow> string list \<Rightarrow> string option" where
  "find_directive svc lines =
     (case find (is_service_directive svc) lines of
        Some d \<Rightarrow> Some d
      | None \<Rightarrow> find is_json_directive lines)"

text \<open>Loading the items of a JSON path through an adapter; any failure is caught and
  leaves the headlines as they were.\<close>

definition load_json_items ::
  "env \<Rightarrow> (item option \<Rightarrow> error + item option) \<Rightarrow> string \<Rightarrow> NewsTicker \<Rightarrow> NewsTicker" where
  "load_json_items e adapter jsonPath s =
     (case fetch_json e jsonPath of
        Inl err \<Rightarrow> s
      | Inr d \<Rightarrow>
          (case items_of d of
             Inl err \<Rightarrow> s
           | Inr items \<Rightarrow>
               (case map_items adapter (take (maxHeadlines s) items) of
                  Inl err \<Rightarrow> s
                | Inr hs \<Rightarrow> s\<lparr>headlines := hs\<rparr>)))"

text \<open>First stage: the directive, when there is one and it carries a path.\<close>

definition load_directive :: "env \<Rightarrow> int \<Rightarrow> string list \<Rightarrow> NewsTicker \<Rightarrow> NewsTicker" where
  "load_directive e now lines s =
     (case find_directive (currentService s) lines of
        None \<Rightarrow> s
      | Some d \<Rightarrow>
          (case split_ws d of
             p0 # jsonPath # rest \<Rightarrow>
               if jsonPath \<noteq> []
               then load_json_items e (mapItemToHeadline (currentService s) now) jsonPath s
               else s
           | other \<Rightarrow> s))"

text \<open>Second stage, when there is no headline yet: the first line with a \<open>.json\<close> token.\<close>

definition load_direct_json :: "env \<Rightarrow> int \<Rightarrow> string list \<Rightarrow> NewsTicker \<Rightarrow> NewsTicker" where
  "load_direct_json e now lines s =
     (if headlines s = [] then
        (case find test_json lines of
           None \<Rightarrow> s
         | Some jsonLine \<Rightarrow>
             (case split_ws jsonLine of
                [] \<Rightarrow> s
              | jsonPath # rest \<Rightarrow>
                  load_json_items e (mapItemToHeadline_direct (currentService s) now) jsonPath s))
      else s)"

text \<open>Third stage, when there is no headline yet: every line is a title.\<close>

definition load_plain_lines :: "int \<Rightarrow> string list \<Rightarrow> NewsTicker \<Rightarrow> NewsTicker" where
  "load_plain_lines now lines s =
     (if headlines s = [] then
        s\<lparr>headlines :=
            map (\<lambda>line. Some (new_headline (toUpperCase (service_name (currentService s)))
                                 line ''#'' now))
                (take (maxHeadlines s) lines)\<rparr>
      else s)"

definition load_lines :: "env \<Rightarrow> int \<Rightarrow> string list \<Rightarrow> NewsTicker \<Rightarrow> NewsTicker" where
  "load_lines e now lines s =
     load_plain_lines now lines (load_direct_json e now lines (load_directive e now lines s))"

definition loadFallbackFromTxt :: "env \<Rightarrow> int \<Rightarrow> NewsTicker \<Rightarrow> NewsTicker" where
  "loadFallbackFromTxt e now s =
     (case fetch_txt e (fallback_file (currentService s)) of
        Inl err \<Rightarrow> s
      | Inr res \<Rightarrow> load_lines e now (txt_lines (body res)) s)"

section \<open>The orchestrator\<close>

text \<open>
  The \<open>catch\<close> block of \<open>loadHeadlines\<close>, which is not itself guarded: the static
  fallback, then the cache when the fallback gave nothing, then a render of what was
  recovered. The tag tells which of the two gave the list.
\<close>

definition loadHeadlines_catch :: "env \<Rightarrow> int \<Rightarrow> NewsTicker \<Rightarrow> FetchOutcome completion" where
  "loadHeadlines_catch e now s' =
     (let s1 = s'\<lparr>offlineMode := True, headlines := []\<rparr>;
          s2 = loadFallbackFromTxt e now s1;
          s3 = (if headlines s2 = [] then loadFromCache e now s2 else s2);
          tag = (if headlines s2 = [] then Cache else Fallback)
      in if headlines s3 \<noteq> [] then
           (case renderHeadlines e now s3 of
              Normal u s4 \<Rightarrow> Normal (tag (headlines s4)) s4
            | Throw err s4 \<Rightarrow> Throw err s4)
         else Normal Empty s3)"

text \<open>\<open>loadHeadlines\<close>. All reads of the clock during one call give \<open>now\<close>.\<close>

definition loadHeadlines :: "env \<Rightarrow> int \<Rightarrow> NewsTicker \<Rightarrow> FetchOutcome completion" where
  "loadHeadlines e now s =
     (case loadHeadlines_try e now s of
        Normal u s' \<Rightarrow> Normal (Remote (headlines s')) s'
      | Throw err s' \<Rightarrow> loadHeadlines_catch e now s')"

text \<open>The state a call leaves, the value it returns if it returns, and the exception it
  throws if it throws.\<close>

fun state_of :: "'a completion \<Rightarrow> NewsTicker" where
  "state_of (Normal v s) = s"
| "state_of (Throw err s) = s"

fun value_of :: "'a completion \<Rightarrow> 'a option" where
  "value_of (Normal v s) = Some v"
| "value_of (Throw err s) = None"

fun error_of :: "'a completion \<Rightarrow> error option" where
  "error_of (Normal v s) = None"
| "error_of (Throw err s) = Some err"

section \<open>Auxiliary notions of the proofs\<close>

text \<open>The order that the comparison function induces: \<open>x\<close> may stand before \<open>y\<close>.\<close>

definition in_order :: "service \<Rightarrow> item option \<Rightarrow> item option \<Rightarrow> bool" where
  "in_order svc x y = (case compareHeadlines svc x y of Inl err \<Rightarrow> False | Inr c \<Rightarrow> c \<le> 0)"

text \<open>A list of headlines that respects the maximum and holds no \<open>null\<close>.\<close>

definition capped :: "nat \<Rightarrow> item option list \<Rightarrow> bool" where
  "capped n hs = (length hs \<le> n \<and> None \<notin> set hs)"

text \<open>A storage none of whose entries holds \<open>null\<close> among its headlines.\<close>

definition renderable_cache :: "(string \<rightharpoonup> stored) \<Rightarrow> bool" where
  "renderable_cache st = (\<forall>k hs t. st k = Some (Entry hs t) \<longrightarrow> None \<notin> set hs)"

text \<open>Two states that differ in their headlines at most.\<close>

definition only_headlines :: "NewsTicker \<Rightarrow> NewsTicker \<Rightarrow> bool" where
  "only_headlines s s' = (s'\<lparr>headlines := []\<rparr> = s\<lparr>headlines := []\<rparr>)"

section \<open>Example inputs\<close>

text \<open>A ticker with the default options that shows a given service, before any load.\<close>

definition ticker0 :: "service \<Rightarrow> NewsTicker" where
  "ticker0 svc =
     \<lparr>endpoint = ''/api/news'', maxHeadlines = options_maxHeadlines None, headlines = [],
      offlineMode = False, currentService = svc, lastUpdate = 0, tickerList = [],
      localStorage = Map.empty\<rparr>"

text \<open>The same ticker with one cache entry for its service.\<close>

definition cached_ticker :: "service \<Rightarrow> item option list \<Rightarrow> int \<Rightarrow> NewsTicker" where
  "cached_ticker svc hs t =
     (ticker0 svc)\<lparr>localStorage := [cacheKey (ticker0 svc) \<mapsto> Entry hs t]\<rparr>"

text \<open>A network on which every fetch is rejected, and a world with a given network and a
  working \<open>localStorage\<close>.\<close>

definition unreachable :: "string \<Rightarrow> response option" where
  "unreachable u = None"

definition world :: "(string \<Rightarrow> response option) \<Rightarrow> env" where
  "world f = \<lparr>fetch = f, getItem_throws = False, setItem_throws = False\<rparr>"

definition json_response :: "payload \<Rightarrow> response" where
  "json_response p = \<lparr>ok = True, body = [], json = Some p\<rparr>"

definition text_response :: "string \<Rightarrow> response" where
  "text_response t = \<lparr>ok = True, body = t, json = None\<rparr>"

definition headline_A :: item where
  "headline_A = new_headline ''BBC'' ''A'' ''http://a'' 1000"

definition headline_B :: item where
  "headline_B = new_headline ''PAFC'' ''B'' ''http://b'' 500"

definition headline_P :: item where
  "headline_P = new_headline ''Plymouth Herald'' ''P'' ''http://p'' 1000"

definition tweet_x :: item where
  "tweet_x =
     \<lparr>source = None, title = None, text_field = None, headline = None, url = None,
      ts = None, hashtag = Some ''#x'', username = Some ''u'', comment = Some ''hi''\<rparr>"

text \<open>The endpoint answers the sports service with the records A and B.\<close>

definition sports_world :: env where
  "sports_world =
     world (unreachable
       (''/api/news?service=sports'' \<mapsto>
          json_response (PArray [Some headline_A, Some headline_B])))"

text \<open>The endpoint answers the sports service with the records P and B.\<close>

definition plymouth_world :: env where
  "plymouth_world =
     world (unreachable
       (''/api/news?service=sports'' \<mapsto>
          json_response (PArray [Some headline_P, Some headline_B])))"

text \<open>The endpoint answers the news service with the records B and A.\<close>

definition news_world :: env where
  "news_world =
     world (unreachable
       (''/api/news'' \<mapsto> json_response (PArray [Some headline_B, Some headline_A])))"

text \<open>No endpoint; the backup text file of the sports service holds one plain line.\<close>

definition sports_txt_world :: env where
  "sports_txt_world =
     world (unreachable (''/backup-news-sports.txt'' \<mapsto> text_response ''Argyle win''))"

text \<open>No endpoint; the backup text file of the local service holds two plain lines.\<close>

definition local_txt_world :: env where
  "local_txt_world =
     world (unreachable
       (''/backup-news-local.txt'' \<mapsto>
          text_response (''Road closed'' @ [CHR 0x0A] @ ''Market open'')))"

text \<open>No endpoint; the backup text file of the tweets service holds a directive, and the
  JSON file it names holds one tweet.\<close>

definition tweets_world :: env where
  "tweets_world =
     world (unreachable
       (''/backup-news-tweets.txt'' \<mapsto> text_response ''tweets-file /data/t.json'',
        ''/data/t.json'' \<mapsto> json_response (PArray [Some tweet_x])))"

text \<open>Lines with a generic directive before the directive of the tweets service, and a
  world that serves both JSON files.\<close>

definition two_directives :: "string list" where
  "two_directives = [''json-file /generic.json'', ''tweets-file /data/t.json'']"

definition two_directives_world :: env where
  "two_directives_world =
     world (unreachable
       (''/generic.json'' \<mapsto> json_response (PArray [Some headline_A]),
        ''/data/t.json'' \<mapsto> json_response (PArray [Some tweet_x])))"




section \<open>The cache: lemmas\<close>

lemma saveToCache_fields [simp]:
  "headlines (saveToCache e now s) = headlines s"
  "currentService (saveToCache e now s) = currentService s"
  "offlineMode (saveToCache e now s) = offlineMode s"
  "maxHeadlines (saveToCache e now s) = maxHeadlines s"
  "cacheKey (saveToCache e now s) = cacheKey s"
  by (simp_all add: saveToCache_def setItem_def cacheKey_def split: sum.splits)

lemma saveToCache_storage:
  "\<not> setItem_throws e \<Longrightarrow>
   localStorage (saveToCache e now s) = (localStorage s)(cacheKey s \<mapsto> Entry (headlines s) now)"
  by (simp add: saveToCache_def setItem_def)

lemma cacheKey_upd [simp]:
  "cacheKey (s\<lparr>headlines := hs\<rparr>) = cacheKey s"
  "cacheKey (s\<lparr>tickerList := xs\<rparr>) = cacheKey s"
  "cacheKey (s\<lparr>localStorage := st\<rparr>) = cacheKey s"
  "cacheKey (s\<lparr>offlineMode := b\<rparr>) = cacheKey s"
  "cacheKey (s\<lparr>lastUpdate := n\<rparr>) = cacheKey s"
  by (simp_all add: cacheKey_def)

lemma renderHeadlines_Normal:
  "None \<notin> set (headlines s) \<Longrightarrow>
   renderHeadlines e now s =
     Normal () (if headlines s = [] then s
                else saveToCache e now (s\<lparr>tickerList := headlines s @ headlines s\<rparr>))"
  by (simp add: renderHeadlines_def)

lemma loadFromCache_hit:
  assumes "localStorage s (cacheKey s) = Some (Entry hs t)" "\<not> getItem_throws e" "now - t < 3600000"
  shows "headlines (loadFromCache e now s) = hs"
  using assms
  by (auto simp: loadFromCache_def getItem_def renderHeadlines_def split: completion.splits)

text \<open>
  Claim C4. For every service, a cache entry with timestamp \<open>t\<close> is returned by a read at
  any instant \<open>now\<close> with \<open>now - t < 3600000\<close>: the read puts its list in \<open>headlines\<close>. At
  an instant with \<open>now - t \<ge> 3600000\<close> the entry is treated as absent (the headlines stay
  as they were) and the read deletes it from the storage.
\<close>

theorem cache_ttl:
  assumes "localStorage s (cacheKey s) = Some (Entry hs t)" and "\<not> getItem_throws e"
  shows "(now - t < 3600000 \<longrightarrow> headlines (loadFromCache e now s) = hs) \<and>
         (3600000 \<le> now - t \<longrightarrow>
            headlines (loadFromCache e now s) = headlines s \<and>
            localStorage (loadFromCache e now s) (cacheKey s) = None)"
  using assms loadFromCache_hit [OF assms]
  by (auto simp: loadFromCache_def getItem_def)

theorem cache_ttl_witness:
  "localStorage (cached_ticker News [Some headline_A] 0) (cacheKey (cached_ticker News [Some headline_A] 0))
     = Some (Entry [Some headline_A] 0) \<and>
   \<not> getItem_throws (world unreachable) \<and>
   headlines (loadFromCache (world unreachable) 3599999 (cached_ticker News [Some headline_A] 0))
     = [Some headline_A] \<and>
   headlines (loadFromCache (world unreachable) 3600000 (cached_ticker News [Some headline_A] 0)) = [] \<and>
   localStorage (loadFromCache (world unreachable) 3600000 (cached_ticker News [Some headline_A] 0))
     (cacheKey (cached_ticker News [Some headline_A] 0)) = None"
proof -
  let ?s = "cached_ticker News [Some headline_A] 0"
  have h1: "localStorage ?s (cacheKey ?s) = Some (Entry [Some headline_A] 0)"
    by (simp add: cached_ticker_def ticker0_def cacheKey_def)
  have h2: "\<not> getItem_throws (world unreachable)" by (simp add: world_def)
  have h3: "headlines ?s = []" by (simp add: cached_ticker_def ticker0_def)
  from cache_ttl [OF h1 h2, of 3599999] cache_ttl [OF h1 h2, of 3600000] h1 h2 h3
  show ?thesis by simp
qed

text \<open>
  Claim C9. For every service and every list of headlines, writing the list to the cache
  and reading the cache less than an hour later gives back the written list, whatever
  \<open>headlines\<close> held in between.
\<close>

theorem cache_round_trip:
  assumes "\<not> setItem_throws e" and "\<not> getItem_throws e" and "now' - now < 3600000"
  shows "headlines (loadFromCache e now' ((saveToCache e now s)\<lparr>headlines := other\<rparr>)) = headlines s"
  by (rule loadFromCache_hit [where t = now]) (simp_all add: assms saveToCache_storage)

theorem cache_round_trip_witness:
  "\<not> setItem_throws (world unreachable) \<and> \<not> getItem_throws (world unreachable) \<and>
   (2000 :: int) - 1000 < 3600000 \<and>
   headlines (loadFromCache (world unreachable) 2000
     ((saveToCache (world unreachable) 1000
         ((ticker0 Sports)\<lparr>headlines := [Some headline_B, Some headline_A]\<rparr>))\<lparr>headlines := []\<rparr>))
     = [Some headline_B, Some headline_A]"
proof -
  have h1: "\<not> setItem_throws (world unreachable)" by (simp add: world_def)
  have h2: "\<not> getItem_throws (world unreachable)" by (simp add: world_def)
  have h3: "(2000 :: int) - 1000 < 3600000" by simp
  from cache_round_trip [OF h1 h2 h3,
      where s = "(ticker0 Sports)\<lparr>headlines := [Some headline_B, Some headline_A]\<rparr>"
        and other = "[]"] h1 h2
  show ?thesis by simp
qed

lemma loadFromCache_rewrites:
  assumes "localStorage s (cacheKey s) = Some (Entry hs t)" "hs \<noteq> []" "None \<notin> set hs"
    "\<not> getItem_throws e" "\<not> setItem_throws e" "now - t < 3600000"
  shows "localStorage (loadFromCache e now s) (cacheKey s) = Some (Entry hs now) \<and>
         headlines (loadFromCache e now s) = hs \<and>
         cacheKey (loadFromCache e now s) = cacheKey s"
  using assms
  by (simp add: loadFromCache_def getItem_def renderHeadlines_Normal saveToCache_storage)

text \<open>
  Claim C10. A cache read that finds a fresh, non-empty list renders it, and the render
  writes the entry again with the instant of the read as its timestamp. So when each read
  comes less than an hour after the one before it (the first one less than an hour after
  the entry was written), every read finds the entry, however long ago it was first
  written, and the entry ends with the timestamp of the last read.
\<close>

theorem cache_hit_extends_lifetime:
  assumes "localStorage s (cacheKey s) = Some (Entry hs t0)" and "hs \<noteq> []" and "None \<notin> set hs"
    and "\<not> getItem_throws e" and "\<not> setItem_throws e"
    and "within_hour t0 instants" and "instants \<noteq> []"
  shows "localStorage (loadFromCache_at e instants s) (cacheKey s) = Some (Entry hs (last instants)) \<and>
         headlines (loadFromCache_at e instants s) = hs"
  using assms
proof (induction instants arbitrary: s t0)
  case Nil
  then show ?case by simp
next
  case (Cons t rest)
  from Cons.prems have gap: "t - t0 < 3600000" and rest: "within_hour t rest" by simp_all
  have step: "localStorage (loadFromCache e t s) (cacheKey s) = Some (Entry hs t) \<and>
         headlines (loadFromCache e t s) = hs \<and>
         cacheKey (loadFromCache e t s) = cacheKey s"
    using Cons.prems gap by (intro loadFromCache_rewrites) simp_all
  show ?case
  proof (cases rest)
    case Nil
    with step show ?thesis by simp
  next
    case (Cons t' rest')
    have "localStorage (loadFromCache_at e rest (loadFromCache e t s)) (cacheKey (loadFromCache e t s))
            = Some (Entry hs (last rest)) \<and>
          headlines (loadFromCache_at e rest (loadFromCache e t s)) = hs"
      using step Cons.prems rest Cons
      by (intro Cons.IH [where ?t0.0 = t]) simp_all
    with step Cons show ?thesis by simp
  qed
qed

theorem cache_hit_extends_lifetime_witness:
  "localStorage (cached_ticker News [Some headline_A] 0) (cacheKey (cached_ticker News [Some headline_A] 0))
     = Some (Entry [Some headline_A] 0) \<and>
   [Some headline_A] \<noteq> [] \<and> None \<notin> set [Some headline_A] \<and>
   \<not> getItem_throws (world unreachable) \<and> \<not> setItem_throws (world unreachable) \<and>
   within_hour 0 [3000000, 6000000] \<and> [3000000, 6000000 :: int] \<noteq> [] \<and>
   (3600000 :: int) \<le> 6000000 - 0 \<and>
   localStorage (loadFromCache_at (world unreachable) [3000000, 6000000]
                   (cached_ticker News [Some headline_A] 0))
     (cacheKey (cached_ticker News [Some headline_A] 0)) = Some (Entry [Some headline_A] 6000000) \<and>
   headlines (loadFromCache_at (world unreachable) [3000000, 6000000]
                (cached_ticker News [Some headline_A] 0)) = [Some headline_A]"
proof -
  let ?s = "cached_ticker News [Some headline_A] 0"
  have h1: "localStorage ?s (cacheKey ?s) = Some (Entry [Some headline_A] 0)"
    by (simp add: cached_ticker_def ticker0_def cacheKey_def)
  have h2: "[Some headline_A] \<noteq> []" by simp
  have h3: "None \<notin> set [Some headline_A]" by simp
  have h4: "\<not> getItem_throws (world unreachable)" by (simp add: world_def)
  have h5: "\<not> setItem_throws (world unreachable)" by (simp add: world_def)
  have h6: "within_hour 0 [3000000, 6000000]" by simp
  have h7: "[3000000, 6000000 :: int] \<noteq> []" by simp
  from cache_hit_extends_lifetime [OF h1 h2 h3 h4 h5 h6 h7] h1 h4 h5
  show ?thesis by simp
qed

section \<open>Sorting: lemmas\<close>

lemma in_order_iff:
  "in_order svc x y =
     (\<exists>a b. x = Some a \<and> y = Some b \<and>
        (if svc = Sports \<and> isPlymouth a \<noteq> isPlymouth b then isPlymouth a
         else ts_or_0 b \<le> ts_or_0 a))"
  by (cases x; cases y) (auto simp: in_order_def compareHeadlines_def)

lemma in_order_trans:
  "in_order svc x y \<Longrightarrow> in_order svc y z \<Longrightarrow> in_order svc x z"
  unfolding in_order_iff
  by (elim exE conjE) (cases "svc = Sports"; simp split: if_splits; force)

lemma in_order_total:
  "compareHeadlines svc x y = Inr c \<Longrightarrow> \<not> c \<le> 0 \<Longrightarrow> in_order svc y x"
  unfolding in_order_iff
  by (cases x; cases y) (auto simp: compareHeadlines_def split: if_splits)

lemma insert_sorted_set:
  "insert_sorted cmp x ys = Inr zs \<Longrightarrow> set zs = insert x (set ys) \<and> length zs = Suc (length ys)"
proof (induction ys arbitrary: zs)
  case Nil
  then show ?case by auto
next
  case (Cons y ys)
  show ?case
  proof (cases "cmp x y")
    case (Inl err)
    with Cons.prems show ?thesis by simp
  next
    case (Inr c)
    show ?thesis
    proof (cases "c \<le> 0")
      case True
      with Inr Cons.prems show ?thesis by auto
    next
      case False
      with Inr Cons.prems obtain zs' where ins: "insert_sorted cmp x ys = Inr zs'" and zs: "zs = y # zs'"
        by (cases "insert_sorted cmp x ys") auto
      from Cons.IH [OF ins] zs show ?thesis by auto
    qed
  qed
qed

lemma insert_sorted_sorted:
  "sorted_wrt (in_order svc) ys \<Longrightarrow> insert_sorted (compareHeadlines svc) x ys = Inr zs \<Longrightarrow>
   sorted_wrt (in_order svc) zs"
proof (induction ys arbitrary: zs)
  case Nil
  then show ?case by auto
next
  case (Cons y ys)
  from Cons.prems(2) obtain c where c: "compareHeadlines svc x y = Inr c"
    by (auto split: sum.splits)
  show ?case
  proof (cases "c \<le> 0")
    case True
    with c Cons.prems(2) have zs: "zs = x # y # ys" by simp
    from c True have xy: "in_order svc x y" by (simp add: in_order_def)
    have "\<forall>z\<in>set ys. in_order svc x z"
      using Cons.prems(1) xy by (auto intro: in_order_trans)
    with zs xy Cons.prems(1) show ?thesis by simp
  next
    case False
    with c Cons.prems(2) obtain zs' where ins: "insert_sorted (compareHeadlines svc) x ys = Inr zs'"
      and zs: "zs = y # zs'"
      by (auto split: sum.splits)
    from Cons.prems(1) have "sorted_wrt (in_order svc) ys" by simp
    then have s': "sorted_wrt (in_order svc) zs'" using ins by (rule Cons.IH)
    have yx: "in_order svc y x" using c False by (rule in_order_total)
    have "set zs' = insert x (set ys)" using ins by (simp add: insert_sorted_set)
    with yx Cons.prems(1) have "\<forall>z\<in>set zs'. in_order svc y z" by auto
    with s' zs show ?thesis by simp
  qed
qed

lemma Array_sort_sorted:
  "Array_sort (compareHeadlines svc) xs = Inr ys \<Longrightarrow>
   sorted_wrt (in_order svc) ys \<and> set ys = set xs \<and> length ys = length xs"
proof (induction xs arbitrary: ys)
  case Nil
  then show ?case by simp
next
  case (Cons x xs)
  from Cons.prems obtain ws where ws: "Array_sort (compareHeadlines svc) xs = Inr ws"
    and ins: "insert_sorted (compareHeadlines svc) x ws = Inr ys"
    by (auto split: sum.splits)
  from Cons.IH [OF ws] have sw: "sorted_wrt (in_order svc) ws"
    and set_ws: "set ws = set xs" and len_ws: "length ws = length xs" by simp_all
  from sw ins have "sorted_wrt (in_order svc) ys" by (rule insert_sorted_sorted)
  moreover from insert_sorted_set [OF ins] set_ws len_ws
  have "set ys = set (x # xs) \<and> length ys = length (x # xs)" by simp
  ultimately show ?case by simp
qed

section \<open>The remote fetch: lemmas\<close>

lemma remote_endpoint_upd [simp]:
  "remote_endpoint (s\<lparr>headlines := hs\<rparr>) = remote_endpoint s"
  by (simp add: remote_endpoint_def)

lemma renderHeadlines_cases:
  obtains s' where "renderHeadlines e now s = Normal () s'" "headlines s' = headlines s"
      "currentService s' = currentService s" "offlineMode s' = offlineMode s"
      "maxHeadlines s' = maxHeadlines s" "None \<notin> set (headlines s)"
      "localStorage s' = (if headlines s = [] \<or> setItem_throws e then localStorage s
                          else (localStorage s)(cacheKey s \<mapsto> Entry (headlines s) now))"
  | s' where "renderHeadlines e now s = Throw TypeError s'" "headlines s' = headlines s"
      "currentService s' = currentService s" "offlineMode s' = offlineMode s"
      "maxHeadlines s' = maxHeadlines s" "None \<in> set (headlines s)"
      "localStorage s' = localStorage s"
proof (cases "None \<in> set (headlines s)")
  case True
  then have "headlines s \<noteq> []" by auto
  with True that(2) [of "s\<lparr>tickerList := []\<rparr>"] show ?thesis
    by (simp add: renderHeadlines_def)
next
  case False
  show ?thesis
  proof (cases "headlines s = []")
    case True
    with False that(1) [of s] show ?thesis by (simp add: renderHeadlines_def)
  next
    case nonempty: False
    with False that(1) [of "saveToCache e now (s\<lparr>tickerList := headlines s @ headlines s\<rparr>)"]
    show ?thesis
      by (simp add: renderHeadlines_def saveToCache_def setItem_def)
  qed
qed

lemma loadHeadlines_try_Normal:
  assumes "loadHeadlines_try e now s = Normal u s'"
  shows "\<exists>r xs ys. fetch e (remote_endpoint s) = Some r \<and> ok r \<and> json r = Some (PArray xs) \<and>
           Array_sort (compareHeadlines (currentService s)) xs = Inr ys \<and>
           headlines s' = take (maxHeadlines s) ys \<and> \<not> offlineMode s' \<and>
           currentService s' = currentService s \<and> maxHeadlines s' = maxHeadlines s \<and>
           None \<notin> set (headlines s')"
proof -
  from assms obtain r where r: "fetch e (remote_endpoint s) = Some r"
    by (cases "fetch e (remote_endpoint s)") (simp_all add: loadHeadlines_try_def)
  from assms r have okr: "ok r"
    by (cases "ok r") (simp_all add: loadHeadlines_try_def)
  from assms r okr obtain p where p: "json r = Some p"
    by (cases "json r") (simp_all add: loadHeadlines_try_def)
  from assms r okr p obtain xs where xs: "p = PArray xs"
    by (cases p) (simp_all add: loadHeadlines_try_def)
  from assms r okr p xs obtain ys where
    ys: "Array_sort (compareHeadlines (currentService s)) xs = Inr ys"
    by (cases "Array_sort (compareHeadlines (currentService s)) xs")
       (simp_all add: loadHeadlines_try_def)
  let ?s2 = "s\<lparr>headlines := take (maxHeadlines s) ys, offlineMode := False\<rparr>"
  have eq: "loadHeadlines_try e now s =
      (case renderHeadlines e now ?s2 of
         Throw err s2 \<Rightarrow> Throw err s2
       | Normal u s2 \<Rightarrow> Normal () (s2\<lparr>lastUpdate := now\<rparr>))"
    using r okr p xs ys by (simp add: loadHeadlines_try_def)
  from renderHeadlines_cases [where e = e and now = now and s = ?s2]
  show ?thesis
  proof cases
    case (1 s2)
    with eq assms have "s' = s2\<lparr>lastUpdate := now\<rparr>" by simp
    with 1 r okr p xs ys show ?thesis by simp
  next
    case (2 s2)
    with eq assms show ?thesis by simp
  qed
qed

lemma loadHeadlines_try_Throw:
  assumes "loadHeadlines_try e now s = Throw err s'"
  shows "localStorage s' = localStorage s \<and> currentService s' = currentService s \<and>
         maxHeadlines s' = maxHeadlines s"
proof (cases "\<exists>r xs ys. fetch e (remote_endpoint s) = Some r \<and> ok r \<and> json r = Some (PArray xs) \<and>
           Array_sort (compareHeadlines (currentService s)) xs = Inr ys")
  case True
  then obtain r xs ys where r: "fetch e (remote_endpoint s) = Some r" "ok r"
    "json r = Some (PArray xs)" "Array_sort (compareHeadlines (currentService s)) xs = Inr ys"
    by blast
  let ?s2 = "s\<lparr>headlines := take (maxHeadlines s) ys, offlineMode := False\<rparr>"
  have eq: "loadHeadlines_try e now s =
      (case renderHeadlines e now ?s2 of
         Throw err s2 \<Rightarrow> Throw err s2
       | Normal u s2 \<Rightarrow> Normal () (s2\<lparr>lastUpdate := now\<rparr>))"
    using r by (simp add: loadHeadlines_try_def)
  from renderHeadlines_cases [where e = e and now = now and s = ?s2]
  show ?thesis
  proof cases
    case (1 s2)
    with eq assms show ?thesis by simp
  next
    case (2 s2)
    with eq assms have "s' = s2" by simp
    with 2 show ?thesis by simp
  qed
next
  case False
  have "s' = s\<lparr>headlines := []\<rparr>"
  proof (cases "fetch e (remote_endpoint s)")
    case None
    with assms show ?thesis by (simp add: loadHeadlines_try_def)
  next
    case (Some r)
    show ?thesis
    proof (cases "ok r")
      case notok: False
      with Some assms show ?thesis by (simp add: loadHeadlines_try_def)
    next
      case okr: True
      show ?thesis
      proof (cases "json r")
        case None
        with Some okr assms show ?thesis by (simp add: loadHeadlines_try_def)
      next
        case p: (Some p)
        show ?thesis
        proof (cases p)
          case (PArray xs)
          with False Some okr p obtain er where
            "Array_sort (compareHeadlines (currentService s)) xs = Inl er"
            by (cases "Array_sort (compareHeadlines (currentService s)) xs") auto
          with PArray Some okr p assms show ?thesis by (simp add: loadHeadlines_try_def)
        qed (use Some okr p assms in \<open>simp_all add: loadHeadlines_try_def\<close>)
      qed
    qed
  qed
  then show ?thesis by simp
qed

section \<open>The static fallback: lemmas\<close>

lemma only_headlines_refl [simp]: "only_headlines s s"
  by (simp add: only_headlines_def)

lemma only_headlines_upd [simp]: "only_headlines s (s\<lparr>headlines := hs\<rparr>)"
  by (simp add: only_headlines_def)

lemma only_headlines_trans:
  "only_headlines s s' \<Longrightarrow> only_headlines s' s'' \<Longrightarrow> only_headlines s s''"
  by (simp add: only_headlines_def)

lemma only_headlines_fields:
  assumes "only_headlines s s'"
  shows "currentService s' = currentService s \<and> maxHeadlines s' = maxHeadlines s \<and>
    localStorage s' = localStorage s \<and> offlineMode s' = offlineMode s \<and>
    cacheKey s' = cacheKey s"
proof -
  from assms have eq: "s'\<lparr>headlines := []\<rparr> = s\<lparr>headlines := []\<rparr>"
    by (simp add: only_headlines_def)
  from arg_cong [OF eq, of currentService] have 1: "currentService s' = currentService s" by simp
  from arg_cong [OF eq, of maxHeadlines] have 2: "maxHeadlines s' = maxHeadlines s" by simp
  from arg_cong [OF eq, of localStorage] have 3: "localStorage s' = localStorage s" by simp
  from arg_cong [OF eq, of offlineMode] have 4: "offlineMode s' = offlineMode s" by simp
  from 1 have 5: "cacheKey s' = cacheKey s" by (simp add: cacheKey_def)
  from 1 2 3 4 5 show ?thesis by simp
qed

lemma map_items_Some:
  assumes "\<And>x y. f x = Inr y \<Longrightarrow> y \<noteq> None"
  shows "map_items f xs = Inr hs \<Longrightarrow> length hs = length xs \<and> None \<notin> set hs"
proof (induction xs arbitrary: hs)
  case Nil
  then show ?case by simp
next
  case (Cons x xs)
  from Cons.prems obtain y where y: "f x = Inr y" by (cases "f x") simp_all
  from Cons.prems y obtain ys where ys: "map_items f xs = Inr ys" and hs: "hs = y # ys"
    by (cases "map_items f xs") simp_all
  from Cons.IH [OF ys] assms [OF y] hs show ?case by auto
qed

lemma mapItemToHeadline_Some: "mapItemToHeadline svc now x = Inr y \<Longrightarrow> y \<noteq> None"
  by (cases x) (auto simp: mapItemToHeadline_def)

lemma mapItemToHeadline_direct_Some: "mapItemToHeadline_direct svc now x = Inr y \<Longrightarrow> y \<noteq> None"
  by (cases x) (auto simp: mapItemToHeadline_direct_def)

lemma load_json_items_frame:
  assumes "\<And>x y. f x = Inr y \<Longrightarrow> y \<noteq> None"
  shows "only_headlines s (load_json_items e f p s) \<and>
         (capped (maxHeadlines s) (headlines s) \<longrightarrow>
            capped (maxHeadlines s) (headlines (load_json_items e f p s)))"
proof (cases "fetch_json e p")
  case (Inl err)
  then show ?thesis by (simp add: load_json_items_def)
next
  case (Inr d)
  show ?thesis
  proof (cases "items_of d")
    case (Inl err)
    with Inr show ?thesis by (simp add: load_json_items_def)
  next
    case items: (Inr items)
    show ?thesis
    proof (cases "map_items f (take (maxHeadlines s) items)")
      case (Inl err)
      with Inr items show ?thesis by (simp add: load_json_items_def)
    next
      case hs: (Inr hs)
      from map_items_Some [of f, OF assms hs]
      have "capped (maxHeadlines s) hs" by (simp add: capped_def)
      with Inr items hs show ?thesis by (simp add: load_json_items_def)
    qed
  qed
qed

lemma load_directive_frame:
  "only_headlines s (load_directive e now lines s) \<and>
   (capped (maxHeadlines s) (headlines s) \<longrightarrow>
      capped (maxHeadlines s) (headlines (load_directive e now lines s)))"
proof (cases "find_directive (currentService s) lines")
  case None
  then show ?thesis by (simp add: load_directive_def)
next
  case (Some d)
  show ?thesis
  proof (cases "split_ws d")
    case Nil
    with Some show ?thesis by (simp add: load_directive_def)
  next
    case (Cons p0 ps)
    show ?thesis
    proof (cases ps)
      case Nil
      with Some Cons show ?thesis by (simp add: load_directive_def)
    next
      case ps: (Cons jsonPath rest)
      show ?thesis
      proof (cases "jsonPath = []")
        case True
        with Some Cons ps show ?thesis by (simp add: load_directive_def)
      next
        case False
        with Some Cons ps have "load_directive e now lines s =
            load_json_items e (mapItemToHeadline (currentService s) now) jsonPath s"
          by (simp add: load_directive_def)
        with load_json_items_frame [of "mapItemToHeadline (currentService s) now" s e jsonPath]
        show ?thesis by (simp add: mapItemToHeadline_Some)
      qed
    qed
  qed
qed

lemma load_direct_json_frame:
  "only_headlines s (load_direct_json e now lines s) \<and>
   (capped (maxHeadlines s) (headlines s) \<longrightarrow>
      capped (maxHeadlines s) (headlines (load_direct_json e now lines s)))"
proof (cases "headlines s = []")
  case False
  then show ?thesis by (simp add: load_direct_json_def)
next
  case True
  show ?thesis
  proof (cases "find test_json lines")
    case None
    with True show ?thesis by (simp add: load_direct_json_def)
  next
    case (Some jsonLine)
    show ?thesis
    proof (cases "split_ws jsonLine")
      case Nil
      with True Some show ?thesis by (simp add: load_direct_json_def)
    next
      case (Cons jsonPath rest)
      with True Some have "load_direct_json e now lines s =
          load_json_items e (mapItemToHeadline_direct (currentService s) now) jsonPath s"
        by (simp add: load_direct_json_def)
      with load_json_items_frame [of "mapItemToHeadline_direct (currentService s) now" s e jsonPath]
      show ?thesis by (simp add: mapItemToHeadline_direct_Some)
    qed
  qed
qed

lemma load_plain_lines_frame:
  "only_headlines s (load_plain_lines now lines s) \<and>
   (capped (maxHeadlines s) (headlines s) \<longrightarrow>
      capped (maxHeadlines s) (headlines (load_plain_lines now lines s)))"
  by (auto simp: load_plain_lines_def capped_def)

lemma load_lines_frame:
  "only_headlines s (load_lines e now lines s) \<and>
   (capped (maxHeadlines s) (headlines s) \<longrightarrow>
      capped (maxHeadlines s) (headlines (load_lines e now lines s)))"
proof -
  let ?a = "load_directive e now lines s"
  let ?b = "load_direct_json e now lines ?a"
  let ?c = "load_plain_lines now lines ?b"
  note A = load_directive_frame [of s e now lines]
  note B = load_direct_json_frame [of ?a e now lines]
  note C = load_plain_lines_frame [of ?b now lines]
  from A have oa: "only_headlines s ?a" by (rule conjunct1)
  from B have ob: "only_headlines ?a ?b" by (rule conjunct1)
  from C have oc: "only_headlines ?b ?c" by (rule conjunct1)
  from only_headlines_fields [OF oa] have ma: "maxHeadlines ?a = maxHeadlines s" by simp
  from only_headlines_fields [OF ob] ma have mb: "maxHeadlines ?b = maxHeadlines s" by simp
  have "only_headlines s ?c"
    using oa ob oc by (blast intro: only_headlines_trans)
  moreover have "capped (maxHeadlines s) (headlines s) \<longrightarrow> capped (maxHeadlines s) (headlines ?c)"
    using A B C ma mb by simp
  ultimately show ?thesis by (simp add: load_lines_def)
qed

lemma loadFallbackFromTxt_frame:
  "only_headlines s (loadFallbackFromTxt e now s) \<and>
   (capped (maxHeadlines s) (headlines s) \<longrightarrow>
      capped (maxHeadlines s) (headlines (loadFallbackFromTxt e now s)))"
  using load_lines_frame [of s e now]
  by (cases "fetch_txt e (fallback_file (currentService s))")
     (simp_all add: loadFallbackFromTxt_def)

section \<open>The orchestrator: lemmas\<close>

lemma loadFromCache_fields:
  "currentService (loadFromCache e now s) = currentService s \<and>
   maxHeadlines (loadFromCache e now s) = maxHeadlines s \<and>
   offlineMode (loadFromCache e now s) = offlineMode s"
proof (cases "getItem e (localStorage s) (cacheKey s)")
  case (Inl err)
  then show ?thesis by (simp add: loadFromCache_def)
next
  case (Inr v)
  show ?thesis
  proof (cases v)
    case None
    with Inr show ?thesis by (simp add: loadFromCache_def)
  next
    case (Some d)
    show ?thesis
    proof (cases d)
      case Unparseable
      with Inr Some show ?thesis by (simp add: loadFromCache_def)
    next
      case (Entry hs t)
      show ?thesis
      proof (cases "now - t < 3600000")
        case False
        with Inr Some Entry show ?thesis by (simp add: loadFromCache_def)
      next
        case True
        from renderHeadlines_cases [where e = e and now = now and s = "s\<lparr>headlines := hs\<rparr>"]
        show ?thesis
        proof cases
          case (1 s')
          with Inr Some Entry True show ?thesis by (simp add: loadFromCache_def)
        next
          case (2 s')
          with Inr Some Entry True show ?thesis by (simp add: loadFromCache_def)
        qed
      qed
    qed
  qed
qed

lemma loadFromCache_headlines:
  "headlines (loadFromCache e now s) = headlines s \<or>
   (\<exists>t. localStorage s (cacheKey s) = Some (Entry (headlines (loadFromCache e now s)) t))"
proof (cases "getItem e (localStorage s) (cacheKey s)")
  case (Inl err)
  then show ?thesis by (simp add: loadFromCache_def)
next
  case (Inr v)
  show ?thesis
  proof (cases v)
    case None
    with Inr show ?thesis by (simp add: loadFromCache_def)
  next
    case (Some d)
    show ?thesis
    proof (cases d)
      case Unparseable
      with Inr Some show ?thesis by (simp add: loadFromCache_def)
    next
      case (Entry hs t)
      from Inr Some Entry have st: "localStorage s (cacheKey s) = Some (Entry hs t)"
        by (simp add: getItem_def split: if_splits)
      show ?thesis
      proof (cases "now - t < 3600000")
        case False
        with Inr Some Entry show ?thesis by (simp add: loadFromCache_def)
      next
        case True
        from renderHeadlines_cases [where e = e and now = now and s = "s\<lparr>headlines := hs\<rparr>"]
        show ?thesis
        proof cases
          case (1 s')
          with Inr Some Entry True st show ?thesis by (simp add: loadFromCache_def)
        next
          case (2 s')
          with Inr Some Entry True st show ?thesis by (simp add: loadFromCache_def)
        qed
      qed
    qed
  qed
qed

lemma loadHeadlines_catch_cases:
  obtains
    (Fallback) s2 s4 where
      "only_headlines (s0\<lparr>offlineMode := True\<rparr>) s2" "headlines s2 \<noteq> []"
      "capped (maxHeadlines s0) (headlines s2)"
      "renderHeadlines e now s2 = Normal () s4"
      "loadHeadlines_catch e now s0 = Normal (Fallback (headlines s2)) s4"
  | (Cache) s2 s4 where
      "only_headlines (s0\<lparr>offlineMode := True\<rparr>) s2" "headlines s2 = []"
      "headlines (loadFromCache e now s2) \<noteq> []"
      "renderHeadlines e now (loadFromCache e now s2) = Normal () s4"
      "loadHeadlines_catch e now s0 = Normal (Cache (headlines (loadFromCache e now s2))) s4"
  | (Throws) s2 s4 where
      "only_headlines (s0\<lparr>offlineMode := True\<rparr>) s2" "headlines s2 = []"
      "None \<in> set (headlines (loadFromCache e now s2))"
      "renderHeadlines e now (loadFromCache e now s2) = Throw TypeError s4"
      "loadHeadlines_catch e now s0 = Throw TypeError s4"
  | (Empty) s2 where
      "only_headlines (s0\<lparr>offlineMode := True\<rparr>) s2" "headlines s2 = []"
      "headlines (loadFromCache e now s2) = []"
      "loadHeadlines_catch e now s0 = Normal Empty (loadFromCache e now s2)"
proof -
  let ?s1 = "s0\<lparr>offlineMode := True, headlines := []\<rparr>"
  let ?s2 = "loadFallbackFromTxt e now ?s1"
  let ?s3 = "loadFromCache e now ?s2"
  from loadFallbackFromTxt_frame [of ?s1 e now]
  have o12: "only_headlines ?s1 ?s2" and cap: "capped (maxHeadlines s0) (headlines ?s2)"
    by (simp_all add: capped_def)
  have "only_headlines (s0\<lparr>offlineMode := True\<rparr>) ?s1" by simp
  then have o: "only_headlines (s0\<lparr>offlineMode := True\<rparr>) ?s2"
    using o12 by (rule only_headlines_trans)
  show ?thesis
  proof (cases "headlines ?s2 = []")
    case False
    from cap have nn: "None \<notin> set (headlines ?s2)" by (simp add: capped_def)
    from renderHeadlines_cases [where e = e and now = now and s = ?s2]
    show ?thesis
    proof cases
      case (1 s4)
      with False have "loadHeadlines_catch e now s0 = Normal (Fallback (headlines ?s2)) s4"
        by (simp add: loadHeadlines_catch_def Let_def)
      with o False cap 1 show ?thesis by (intro Fallback [of ?s2 s4]) simp_all
    next
      case (2 s4)
      with nn show ?thesis by simp
    qed
  next
    case True
    show ?thesis
    proof (cases "headlines ?s3 = []")
      case e3: True
      with True have "loadHeadlines_catch e now s0 = Normal Empty ?s3"
        by (simp add: loadHeadlines_catch_def Let_def)
      with o True e3 show ?thesis by (intro Empty [of ?s2]) simp_all
    next
      case ne3: False
      from renderHeadlines_cases [where e = e and now = now and s = ?s3]
      show ?thesis
      proof cases
        case (1 s4)
        with True ne3 have "loadHeadlines_catch e now s0 = Normal (Cache (headlines ?s3)) s4"
          by (simp add: loadHeadlines_catch_def Let_def)
        with o True ne3 1 show ?thesis by (intro Cache [of ?s2 s4]) simp_all
      next
        case (2 s4)
        with True ne3 have "loadHeadlines_catch e now s0 = Throw TypeError s4"
          by (simp add: loadHeadlines_catch_def Let_def)
        with o True 2 show ?thesis by (intro Throws [of ?s2 s4]) simp_all
      qed
    qed
  qed
qed

lemma loadHeadlines_Remote:
  assumes "value_of (loadHeadlines e now s) = Some (Remote hs)"
  shows "\<exists>r xs ys. fetch e (remote_endpoint s) = Some r \<and> ok r \<and> json r = Some (PArray xs) \<and>
           Array_sort (compareHeadlines (currentService s)) xs = Inr ys \<and>
           hs = take (maxHeadlines s) ys"
proof (cases "loadHeadlines_try e now s")
  case (Normal u s')
  with assms have "hs = headlines s'" by (simp add: loadHeadlines_def)
  with loadHeadlines_try_Normal [OF Normal] show ?thesis by auto
next
  case (Throw err s0)
  then have eq: "loadHeadlines e now s = loadHeadlines_catch e now s0"
    by (simp add: loadHeadlines_def)
  from loadHeadlines_catch_cases [where e = e and now = now and ?s0.0 = s0]
  show ?thesis
    by cases (use eq assms in simp_all)
qed

lemma loadHeadlines_Fallback:
  assumes "value_of (loadHeadlines e now s) = Some (Fallback hs)"
  shows "\<exists>err s0 s2 s4. loadHeadlines_try e now s = Throw err s0 \<and>
           only_headlines (s0\<lparr>offlineMode := True\<rparr>) s2 \<and> headlines s2 = hs \<and> hs \<noteq> [] \<and>
           capped (maxHeadlines s0) hs \<and> renderHeadlines e now s2 = Normal () s4 \<and>
           loadHeadlines e now s = Normal (Fallback hs) s4"
proof (cases "loadHeadlines_try e now s")
  case (Normal u s')
  with assms show ?thesis by (simp add: loadHeadlines_def)
next
  case (Throw err s0)
  then have eq: "loadHeadlines e now s = loadHeadlines_catch e now s0"
    by (simp add: loadHeadlines_def)
  from loadHeadlines_catch_cases [where e = e and now = now and ?s0.0 = s0]
  show ?thesis
  proof cases
    case (Fallback s2 s4)
    with eq assms have "headlines s2 = hs" by simp
    with Fallback Throw eq show ?thesis by auto
  qed (use eq assms in simp_all)
qed

text \<open>
  Claim C2, as amended. When the remote fetch fails and the static fallback yields a
  non-empty list (the outcome is \<open>Fallback\<close>), the list is rendered and the render writes
  it to the cache entry of the service, with the instant of the call as timestamp,
  unless \<open>setItem\<close> raises.
\<close>

theorem fallback_is_cached:
  assumes "value_of (loadHeadlines e now s) = Some (Fallback hs)" and "\<not> setItem_throws e"
  shows "localStorage (state_of (loadHeadlines e now s)) (cacheKey s) = Some (Entry hs now)"
proof -
  from loadHeadlines_Fallback [OF assms(1)] obtain err s0 s2 s4 where
    thrown: "loadHeadlines_try e now s = Throw err s0"
    and o: "only_headlines (s0\<lparr>offlineMode := True\<rparr>) s2"
    and hs: "headlines s2 = hs" "hs \<noteq> []"
    and r: "renderHeadlines e now s2 = Normal () s4"
    and eq: "loadHeadlines e now s = Normal (Fallback hs) s4"
    by blast
  from only_headlines_fields [OF o] loadHeadlines_try_Throw [OF thrown]
  have key: "cacheKey s2 = cacheKey s" by (simp add: cacheKey_def)
  from renderHeadlines_cases [where e = e and now = now and s = s2]
  have "localStorage s4 (cacheKey s2) = Some (Entry hs now)"
    by cases (use r hs assms(2) in simp_all)
  with key eq show ?thesis by simp
qed

theorem fallback_is_cached_witness:
  "value_of (loadHeadlines tweets_world 1234 (ticker0 Tweets))
     = Some (Fallback [Some (new_headline ''TWITTER'' ''#x @u: hi'' ''https://twitter.com/u'' 1234)]) \<and>
   \<not> setItem_throws tweets_world \<and>
   localStorage (state_of (loadHeadlines tweets_world 1234 (ticker0 Tweets)))
       (cacheKey (ticker0 Tweets))
     = Some (Entry [Some (new_headline ''TWITTER'' ''#x @u: hi'' ''https://twitter.com/u'' 1234)] 1234)"
proof -
  have h1: "value_of (loadHeadlines tweets_world 1234 (ticker0 Tweets))
     = Some (Fallback [Some (new_headline ''TWITTER'' ''#x @u: hi'' ''https://twitter.com/u'' 1234)])"
    by code_simp
  have h2: "\<not> setItem_throws tweets_world" by (simp add: tweets_world_def world_def)
  from fallback_is_cached [OF h1 h2] h1 h2 show ?thesis by simp
qed

text \<open>
  Claim C2 as stated fails: with no endpoint and one plain line in the fallback file of
  the sports service, the cache has no entry before the call and holds the fallback list
  after it.
\<close>

theorem fallback_write_back_counterexample:
  "value_of (loadHeadlines sports_txt_world 1234 (ticker0 Sports))
     = Some (Fallback [Some (new_headline ''SPORTS'' ''Argyle win'' ''#'' 1234)]) \<and>
   localStorage (ticker0 Sports) ''news-ticker-cache-sports'' = None \<and>
   localStorage (state_of (loadHeadlines sports_txt_world 1234 (ticker0 Sports)))
       ''news-ticker-cache-sports''
     = Some (Entry [Some (new_headline ''SPORTS'' ''Argyle win'' ''#'' 1234)] 1234)"
  by code_simp

text \<open>
  Claim C6. Whatever the endpoint or the fallback files hold, the list of a \<open>Remote\<close> or
  a \<open>Fallback\<close> outcome (the directive, the direct \<open>.json\<close> line or the plain lines) has at
  most \<open>maxHeadlines\<close> elements; the default maximum is 50.
\<close>

theorem result_length_capped:
  assumes "value_of (loadHeadlines e now s) = Some (Remote hs) \<or>
           value_of (loadHeadlines e now s) = Some (Fallback hs)"
  shows "length hs \<le> maxHeadlines s \<and> options_maxHeadlines None = 50"
proof -
  from assms have "length hs \<le> maxHeadlines s"
  proof
    assume "value_of (loadHeadlines e now s) = Some (Remote hs)"
    from loadHeadlines_Remote [OF this] show ?thesis by auto
  next
    assume "value_of (loadHeadlines e now s) = Some (Fallback hs)"
    from loadHeadlines_Fallback [OF this] obtain err s0 where
      "loadHeadlines_try e now s = Throw err s0" "capped (maxHeadlines s0) hs" by blast
    with loadHeadlines_try_Throw [of e now s err s0] show ?thesis by (simp add: capped_def)
  qed
  then show ?thesis by (simp add: options_maxHeadlines_def)
qed

theorem result_length_capped_witness:
  "value_of (loadHeadlines news_world 1234 ((ticker0 News)\<lparr>maxHeadlines := 1\<rparr>))
     = Some (Remote [Some headline_A]) \<and>
   length [Some headline_A] \<le> maxHeadlines ((ticker0 News)\<lparr>maxHeadlines := 1\<rparr>) \<and>
   value_of (loadHeadlines local_txt_world 1234 ((ticker0 Local)\<lparr>maxHeadlines := 1\<rparr>))
     = Some (Fallback [Some (new_headline ''LOCAL'' ''Road closed'' ''#'' 1234)]) \<and>
   length [Some (new_headline ''LOCAL'' ''Road closed'' ''#'' 1234)]
     \<le> maxHeadlines ((ticker0 Local)\<lparr>maxHeadlines := 1\<rparr>) \<and>
   options_maxHeadlines None = 50"
proof -
  have h: "value_of (loadHeadlines news_world 1234 ((ticker0 News)\<lparr>maxHeadlines := 1\<rparr>))
     = Some (Remote [Some headline_A])"
    by code_simp
  have h': "value_of (loadHeadlines local_txt_world 1234 ((ticker0 Local)\<lparr>maxHeadlines := 1\<rparr>))
     = Some (Fallback [Some (new_headline ''LOCAL'' ''Road closed'' ''#'' 1234)])"
    by code_simp
  from result_length_capped [OF disjI1 [OF h]] result_length_capped [OF disjI2 [OF h']] h h'
  show ?thesis by simp
qed

text \<open>
  Claim C8. When the \<open>try\<close> block of \<open>loadHeadlines\<close> throws (the remote fetch failed), the
  offline flag is true after the call; and the flag is false after a call exactly when
  the outcome is \<open>Remote\<close>: no other outcome, and no exception, leaves it false.
\<close>

theorem offline_flag:
  "((\<exists>err s0. loadHeadlines_try e now s = Throw err s0) \<longrightarrow>
      offlineMode (state_of (loadHeadlines e now s))) \<and>
   ((\<not> offlineMode (state_of (loadHeadlines e now s))) =
      (\<exists>hs. value_of (loadHeadlines e now s) = Some (Remote hs)))"
proof (cases "loadHeadlines_try e now s")
  case (Normal u s')
  from loadHeadlines_try_Normal [OF Normal] have "\<not> offlineMode s'" by blast
  with Normal show ?thesis by (simp add: loadHeadlines_def)
next
  case (Throw err s0)
  then have eq: "loadHeadlines e now s = loadHeadlines_catch e now s0"
    by (simp add: loadHeadlines_def)
  from loadHeadlines_catch_cases [where e = e and now = now and ?s0.0 = s0]
  have "offlineMode (state_of (loadHeadlines e now s)) \<and>
        (\<forall>hs. value_of (loadHeadlines e now s) \<noteq> Some (Remote hs))"
  proof cases
    case (Fallback s2 s4)
    from only_headlines_fields [OF Fallback(1)] have "offlineMode s2" by simp
    moreover from renderHeadlines_cases [where e = e and now = now and s = s2]
    have "offlineMode s4 = offlineMode s2" by cases (use Fallback(4) in simp_all)
    ultimately show ?thesis using eq Fallback(5) by simp
  next
    case (Cache s2 s4)
    from only_headlines_fields [OF Cache(1)] loadFromCache_fields [of e now s2]
    have "offlineMode (loadFromCache e now s2)" by simp
    moreover from renderHeadlines_cases [where e = e and now = now and s = "loadFromCache e now s2"]
    have "offlineMode s4 = offlineMode (loadFromCache e now s2)" by cases (use Cache(4) in simp_all)
    ultimately show ?thesis using eq Cache(5) by simp
  next
    case (Throws s2 s4)
    from only_headlines_fields [OF Throws(1)] loadFromCache_fields [of e now s2]
    have "offlineMode (loadFromCache e now s2)" by simp
    moreover from renderHeadlines_cases [where e = e and now = now and s = "loadFromCache e now s2"]
    have "offlineMode s4 = offlineMode (loadFromCache e now s2)" by cases (use Throws(4) in simp_all)
    ultimately show ?thesis using eq Throws(5) by simp
  next
    case (Empty s2)
    from only_headlines_fields [OF Empty(1)] loadFromCache_fields [of e now s2]
    have "offlineMode (loadFromCache e now s2)" by simp
    then show ?thesis using eq Empty(4) by simp
  qed
  with Throw show ?thesis by simp
qed

theorem offline_flag_witness:
  "loadHeadlines_try tweets_world 1234 (ticker0 Tweets)
     = Throw NetworkError ((ticker0 Tweets)\<lparr>headlines := []\<rparr>) \<and>
   offlineMode (state_of (loadHeadlines tweets_world 1234 (ticker0 Tweets))) \<and>
   value_of (loadHeadlines sports_world 1234 ((ticker0 Sports)\<lparr>offlineMode := True\<rparr>))
     = Some (Remote [Some headline_B, Some headline_A]) \<and>
   \<not> offlineMode (state_of (loadHeadlines sports_world 1234 ((ticker0 Sports)\<lparr>offlineMode := True\<rparr>)))"
proof -
  have h1: "loadHeadlines_try tweets_world 1234 (ticker0 Tweets)
     = Throw NetworkError ((ticker0 Tweets)\<lparr>headlines := []\<rparr>)"
    by (simp add: loadHeadlines_try_def tweets_world_def world_def unreachable_def ticker0_def
                  remote_endpoint_def)
  have h2: "value_of (loadHeadlines sports_world 1234 ((ticker0 Sports)\<lparr>offlineMode := True\<rparr>))
     = Some (Remote [Some headline_B, Some headline_A])"
    by code_simp
  from offline_flag [of tweets_world 1234 "ticker0 Tweets"] h1
  have a: "offlineMode (state_of (loadHeadlines tweets_world 1234 (ticker0 Tweets)))" by blast
  from offline_flag [of sports_world 1234 "(ticker0 Sports)\<lparr>offlineMode := True\<rparr>"] h2
  have b: "\<not> offlineMode (state_of (loadHeadlines sports_world 1234 ((ticker0 Sports)\<lparr>offlineMode := True\<rparr>)))"
    by blast
  from h1 h2 a b show ?thesis by simp
qed

text \<open>
  \<open>loadHeadlines\<close> returns normally whenever the cache entry of the current service, if
  there is one, holds no \<open>null\<close>; every list that the ticker itself has cached is such.
\<close>

lemma loadHeadlines_returns:
  assumes "\<And>hs t. localStorage s (cacheKey s) = Some (Entry hs t) \<Longrightarrow> None \<notin> set hs"
  shows "\<exists>r s'. loadHeadlines e now s = Normal r s'"
proof (cases "loadHeadlines_try e now s")
  case (Normal u s')
  then show ?thesis by (simp add: loadHeadlines_def)
next
  case (Throw err s0)
  then have eq: "loadHeadlines e now s = loadHeadlines_catch e now s0"
    by (simp add: loadHeadlines_def)
  from loadHeadlines_catch_cases [where e = e and now = now and ?s0.0 = s0]
  show ?thesis
  proof cases
    case (Throws s2 s4)
    from only_headlines_fields [OF Throws(1)] loadHeadlines_try_Throw [OF Throw]
    have same: "localStorage s2 = localStorage s" "cacheKey s2 = cacheKey s"
      by (simp_all add: cacheKey_def)
    from loadFromCache_headlines [of e now s2] Throws(2,3) same
    obtain t where "localStorage s (cacheKey s) = Some (Entry (headlines (loadFromCache e now s2)) t)"
      by auto
    from assms [OF this] Throws(3) show ?thesis by simp
  qed (use eq in simp_all)
qed

lemma renderable_cache_upd:
  "renderable_cache st \<Longrightarrow> None \<notin> set hs \<Longrightarrow> renderable_cache (st(k \<mapsto> Entry hs t))"
  by (simp add: renderable_cache_def)

lemma renderable_cache_del:
  "renderable_cache st \<Longrightarrow> renderable_cache (st(k := None))"
  by (simp add: renderable_cache_def)

lemma renderHeadlines_renderable:
  assumes "renderable_cache (localStorage s)"
  shows "renderable_cache (localStorage (state_of (renderHeadlines e now s)))"
  using renderHeadlines_cases [where e = e and now = now and s = s]
proof cases
  case (1 s')
  with assms show ?thesis by (simp add: renderable_cache_upd)
next
  case (2 s')
  with assms show ?thesis by simp
qed

lemma loadFromCache_renderable:
  assumes "renderable_cache (localStorage s)"
  shows "renderable_cache (localStorage (loadFromCache e now s))"
proof (cases "getItem e (localStorage s) (cacheKey s)")
  case (Inl err)
  with assms show ?thesis by (simp add: loadFromCache_def)
next
  case (Inr v)
  show ?thesis
  proof (cases v)
    case None
    with Inr assms show ?thesis by (simp add: loadFromCache_def)
  next
    case (Some d)
    show ?thesis
    proof (cases d)
      case Unparseable
      with Inr Some assms show ?thesis by (simp add: loadFromCache_def)
    next
      case (Entry hs t)
      show ?thesis
      proof (cases "now - t < 3600000")
        case False
        with Inr Some Entry assms show ?thesis
          by (simp add: loadFromCache_def renderable_cache_del)
      next
        case True
        from assms have "renderable_cache (localStorage (s\<lparr>headlines := hs\<rparr>))" by simp
        from renderHeadlines_renderable [OF this, of e now]
        have "renderable_cache (localStorage (state_of (renderHeadlines e now (s\<lparr>headlines := hs\<rparr>))))" .
        moreover have "loadFromCache e now s = state_of (renderHeadlines e now (s\<lparr>headlines := hs\<rparr>))"
          using Inr Some Entry True
          by (cases "renderHeadlines e now (s\<lparr>headlines := hs\<rparr>)") (simp_all add: loadFromCache_def)
        ultimately show ?thesis by simp
      qed
    qed
  qed
qed

lemma loadHeadlines_try_renderable:
  assumes "renderable_cache (localStorage s)"
  shows "renderable_cache (localStorage (state_of (loadHeadlines_try e now s)))"
proof (cases "loadHeadlines_try e now s")
  case (Throw err s')
  with loadHeadlines_try_Throw [OF Throw] assms show ?thesis by simp
next
  case (Normal u s')
  from loadHeadlines_try_Normal [OF Normal] obtain r xs ys where
    r: "fetch e (remote_endpoint s) = Some r" "ok r" "json r = Some (PArray xs)"
       "Array_sort (compareHeadlines (currentService s)) xs = Inr ys"
    by blast
  let ?s2 = "s\<lparr>headlines := take (maxHeadlines s) ys, offlineMode := False\<rparr>"
  have eq: "loadHeadlines_try e now s =
      (case renderHeadlines e now ?s2 of
         Throw err s2 \<Rightarrow> Throw err s2
       | Normal u s2 \<Rightarrow> Normal () (s2\<lparr>lastUpdate := now\<rparr>))"
    using r by (simp add: loadHeadlines_try_def)
  from assms have "renderable_cache (localStorage ?s2)" by simp
  from renderHeadlines_renderable [OF this, of e now] eq
  show ?thesis by (cases "renderHeadlines e now ?s2") simp_all
qed

text \<open>
  The ticker keeps the storage free of \<open>null\<close> headlines: it caches a list only after
  having rendered it.
\<close>

lemma loadHeadlines_renderable:
  assumes "renderable_cache (localStorage s)"
  shows "renderable_cache (localStorage (state_of (loadHeadlines e now s)))"
proof (cases "loadHeadlines_try e now s")
  case (Normal u s')
  with loadHeadlines_try_renderable [OF assms, of e now] show ?thesis
    by (simp add: loadHeadlines_def)
next
  case (Throw err s0)
  then have eq: "loadHeadlines e now s = loadHeadlines_catch e now s0"
    by (simp add: loadHeadlines_def)
  from loadHeadlines_try_Throw [OF Throw] assms have r0: "renderable_cache (localStorage s0)"
    by simp
  from loadHeadlines_catch_cases [where e = e and now = now and ?s0.0 = s0]
  show ?thesis
  proof cases
    case (Fallback s2 s4)
    from only_headlines_fields [OF Fallback(1)] r0 have "renderable_cache (localStorage s2)"
      by simp
    from renderHeadlines_renderable [OF this, of e now] Fallback(4,5) eq show ?thesis by simp
  next
    case (Cache s2 s4)
    from only_headlines_fields [OF Cache(1)] r0 have "renderable_cache (localStorage s2)"
      by simp
    from renderHeadlines_renderable [OF loadFromCache_renderable [OF this], of e now e now]
      Cache(4,5) eq
    show ?thesis by simp
  next
    case (Throws s2 s4)
    from only_headlines_fields [OF Throws(1)] r0 have "renderable_cache (localStorage s2)"
      by simp
    from renderHeadlines_renderable [OF loadFromCache_renderable [OF this], of e now e now]
      Throws(4,5) eq
    show ?thesis by simp
  next
    case (Empty s2)
    from only_headlines_fields [OF Empty(1)] r0 have "renderable_cache (localStorage s2)"
      by simp
    from loadFromCache_renderable [OF this, of e now] Empty(4) eq show ?thesis by simp
  qed
qed

text \<open>So, from a storage free of \<open>null\<close> headlines, every call returns and leaves such a
  storage: no sequence of calls of the ticker alone leads to an exception.\<close>

lemma loadHeadlines_returns_renderable:
  assumes "renderable_cache (localStorage s)"
  shows "\<exists>r s'. loadHeadlines e now s = Normal r s' \<and> renderable_cache (localStorage s')"
proof -
  have h: "\<And>hs t. localStorage s (cacheKey s) = Some (Entry hs t) \<Longrightarrow> None \<notin> set hs"
    using assms unfolding renderable_cache_def by blast
  have "\<exists>r s'. loadHeadlines e now s = Normal r s'"
    by (rule loadHeadlines_returns) (rule h)
  then obtain r s' where "loadHeadlines e now s = Normal r s'" by blast
  with loadHeadlines_renderable [OF assms, of e now] show ?thesis by simp
qed

text \<open>
  Claim C1 (\<open>loadHeadlines\<close> never raises). With no network and a fresh cache entry whose
  list holds \<open>null\<close>, \<open>loadFromCache\<close> puts the list in \<open>headlines\<close>, its own render raises
  and is caught there, and the render at the end of the \<open>catch\<close> block of \<open>loadHeadlines\<close>,
  which nothing guards, raises the TypeError to the caller.
\<close>

theorem loadHeadlines_throws_on_null_cached_headline:
  "error_of (loadHeadlines (world unreachable) 1234 (cached_ticker Tweets [None] 1000))
     = Some TypeError"
  by code_simp

text \<open>
  Claim C3, as amended. For the sports service, after a successful remote fetch, a record
  whose source contains \<open>plymouth\<close> or \<open>pafc\<close> (in any case) never stands after a record
  whose source contains neither, and two records that agree on this stand by descending
  \<open>ts\<close>, a missing \<open>ts\<close> counting as 0.
\<close>

theorem sports_priority_order:
  assumes "value_of (loadHeadlines e now s) = Some (Remote hs)"
    and "currentService s = Sports" and "i < j" and "j < length hs"
  shows "\<exists>a b. hs ! i = Some a \<and> hs ! j = Some b \<and>
           (isPlymouth b \<longrightarrow> isPlymouth a) \<and>
           (isPlymouth a = isPlymouth b \<longrightarrow> ts_or_0 b \<le> ts_or_0 a)"
proof -
  from loadHeadlines_Remote [OF assms(1)] assms(2) obtain xs ys where
    ys: "Array_sort (compareHeadlines Sports) xs = Inr ys" and hs: "hs = take (maxHeadlines s) ys"
    by auto
  from Array_sort_sorted [OF ys] have "sorted_wrt (in_order Sports) ys" by simp
  then have "sorted_wrt (in_order Sports) hs" unfolding hs by (rule sorted_wrt_take)
  from sorted_wrt_nth_less [OF this assms(3,4)] have "in_order Sports (hs ! i) (hs ! j)" .
  then show ?thesis unfolding in_order_iff by (auto split: if_splits)
qed

theorem sports_priority_order_witness:
  "value_of (loadHeadlines sports_world 1234 (ticker0 Sports))
     = Some (Remote [Some headline_B, Some headline_A]) \<and>
   currentService (ticker0 Sports) = Sports \<and> (0 :: nat) < 1 \<and>
   1 < length [Some headline_B, Some headline_A] \<and>
   isPlymouth headline_B \<and> \<not> isPlymouth headline_A \<and>
   ts_or_0 headline_B = 500 \<and> ts_or_0 headline_A = 1000"
proof -
  have h1: "value_of (loadHeadlines sports_world 1234 (ticker0 Sports))
     = Some (Remote [Some headline_B, Some headline_A])"
    by code_simp
  have h2: "currentService (ticker0 Sports) = Sports" by (simp add: ticker0_def)
  have h3: "(0 :: nat) < 1" by simp
  have h4: "1 < length [Some headline_B, Some headline_A]" by simp
  have h5: "\<not> isPlymouth headline_A" by code_simp
  have h6: "ts_or_0 headline_B = 500 \<and> ts_or_0 headline_A = 1000" by code_simp
  from sports_priority_order [OF h1 h2 h3 h4] h5 h6
  have "isPlymouth headline_B" by auto
  with h1 h2 h3 h4 h5 h6 show ?thesis by simp
qed

text \<open>
  Claim C3 as stated, with \<open>pafc\<close> as the priority substring, fails: of the records P
  (source \<open>Plymouth Herald\<close>, ts 1000) and B (source \<open>PAFC\<close>, ts 500) only B contains
  \<open>pafc\<close>, and P stands first.
\<close>

theorem single_priority_substring_counterexample:
  "value_of (loadHeadlines plymouth_world 1234 (ticker0 Sports))
     = Some (Remote [Some headline_P, Some headline_B]) \<and>
   includes_str (toLowerCase (or_str (source headline_B) [])) ''pafc'' \<and>
   \<not> includes_str (toLowerCase (or_str (source headline_P) [])) ''pafc''"
  by code_simp

lemma find_Some_set: "find P xs = Some x \<Longrightarrow> x \<in> set xs \<and> P x"
  by (induction xs) (auto split: if_splits)

lemma find_None_set: "find P xs = None \<Longrightarrow> \<forall>x\<in>set xs. \<not> P x"
  by (induction xs) (auto split: if_splits)

lemma find_append_first:
  "P d \<Longrightarrow> \<forall>l\<in>set pre. \<not> P l \<Longrightarrow> find P (pre @ d # post) = Some d"
  by (induction pre) simp_all

text \<open>
  The directive: the first line that begins with the directive of the service, whatever
  \<open>json-file\<close> lines there are; without such a line, the first \<open>json-file\<close> line.
\<close>

lemma find_directive_service_first:
  assumes "is_service_directive svc d" and "\<forall>l\<in>set pre. \<not> is_service_directive svc l"
  shows "find_directive svc (pre @ d # post) = Some d"
  using find_append_first [of "is_service_directive svc" d pre post] assms
  by (simp add: find_directive_def)

lemma find_directive_generic_first:
  assumes "\<forall>l\<in>set (pre @ d # post). \<not> is_service_directive svc l"
    and "is_json_directive d" and "\<forall>l\<in>set pre. \<not> is_json_directive l"
  shows "find_directive svc (pre @ d # post) = Some d"
proof -
  have "find (is_service_directive svc) (pre @ d # post) = None"
  proof (cases "find (is_service_directive svc) (pre @ d # post)")
    case (Some a)
    from find_Some_set [OF Some] assms(1) show ?thesis by blast
  qed simp
  with find_append_first [of is_json_directive d pre post] assms(2,3)
  show ?thesis by (simp add: find_directive_def)
qed

text \<open>
  The three stages. When the JSON file of the directive gives a non-empty list, that list,
  mapped by the adapter of the service, is the result. When the directive stage gives
  nothing and the JSON file named by the first token of the first line with a \<open>.json\<close>
  token gives a non-empty list, that list is the result. When both give nothing, every
  line is a title.
\<close>

lemma load_lines_directive:
  assumes "find_directive (currentService s) lines = Some d"
    and "split_ws d = p0 # jsonPath # rest" and "jsonPath \<noteq> []"
    and "fetch_json e jsonPath = Inr d'" and "items_of d' = Inr items"
    and "map_items (mapItemToHeadline (currentService s) now) (take (maxHeadlines s) items) = Inr hs"
    and "hs \<noteq> []"
  shows "headlines (load_lines e now lines s) = hs"
proof -
  from assms(1-6) have "load_directive e now lines s = s\<lparr>headlines := hs\<rparr>"
    by (simp add: load_directive_def load_json_items_def)
  with assms(7) show ?thesis
    by (simp add: load_lines_def load_direct_json_def load_plain_lines_def)
qed

lemma load_lines_direct_json:
  assumes "headlines (load_directive e now lines s) = []"
    and "find test_json lines = Some l" and "split_ws l = jsonPath # rest"
    and "fetch_json e jsonPath = Inr d'" and "items_of d' = Inr items"
    and "map_items (mapItemToHeadline_direct (currentService s) now)
           (take (maxHeadlines s) items) = Inr hs"
    and "hs \<noteq> []"
  shows "headlines (load_lines e now lines s) = hs"
proof -
  let ?a = "load_directive e now lines s"
  from load_directive_frame [of s e now lines] have "only_headlines s ?a" by (rule conjunct1)
  from only_headlines_fields [OF this]
  have same: "currentService ?a = currentService s" "maxHeadlines ?a = maxHeadlines s" by simp_all
  from assms(1-6) same have "load_direct_json e now lines ?a = ?a\<lparr>headlines := hs\<rparr>"
    by (simp add: load_direct_json_def load_json_items_def)
  with assms(7) show ?thesis by (simp add: load_lines_def load_plain_lines_def)
qed

lemma load_lines_plain:
  assumes "headlines (load_directive e now lines s) = []"
    and "headlines (load_direct_json e now lines (load_directive e now lines s)) = []"
  shows "headlines (load_lines e now lines s) =
           map (\<lambda>line. Some (new_headline (toUpperCase (service_name (currentService s)))
                                line ''#'' now))
               (take (maxHeadlines s) lines)"
proof -
  let ?a = "load_directive e now lines s"
  let ?b = "load_direct_json e now lines ?a"
  from load_directive_frame [of s e now lines] have oa: "only_headlines s ?a" by (rule conjunct1)
  from load_direct_json_frame [of ?a e now lines] have ob: "only_headlines ?a ?b" by (rule conjunct1)
  from only_headlines_fields [OF oa] only_headlines_fields [OF ob]
  have "currentService ?b = currentService s" "maxHeadlines ?b = maxHeadlines s" by simp_all
  with assms show ?thesis by (simp add: load_lines_def load_plain_lines_def)
qed

lemma two_directives_example:
  "headlines (load_lines two_directives_world 1234 two_directives (ticker0 Tweets))
     = [Some (new_headline ''TWITTER'' ''#x @u: hi'' ''https://twitter.com/u'' 1234)]"
proof -
  have d: "find_directive (currentService (ticker0 Tweets)) two_directives
             = Some ''tweets-file /data/t.json''"
    using find_directive_service_first [of Tweets "''tweets-file /data/t.json''"
            "[''json-file /generic.json'']" "[]"]
    by (simp add: two_directives_def ticker0_def is_service_directive_def startsWith_def
                  toLowerCase_def toLowerCase_char_def)
  have ws: "split_ws ''tweets-file /data/t.json'' = [''tweets-file'', ''/data/t.json'']"
    by (simp add: split_ws_def is_space_def)
  have f: "fetch_json two_directives_world ''/data/t.json'' = Inr (PArray [Some tweet_x])"
    by (simp add: fetch_json_def two_directives_world_def world_def json_response_def
                  startsWith_def)
  have m: "map_items (mapItemToHeadline (currentService (ticker0 Tweets)) 1234)
             (take (maxHeadlines (ticker0 Tweets)) [Some tweet_x])
           = Inr [Some (new_headline ''TWITTER'' ''#x @u: hi'' ''https://twitter.com/u'' 1234)]"
    by code_simp
  show ?thesis
    by (rule load_lines_directive [OF d ws _ f _ m]) simp_all
qed


text \<open>
  Claim C7. For the tweets service, when the remote fetch fails, the lines of the fallback
  file are the directive \<open>tweets-file /data/t.json\<close>, and that file is the array of one
  item with hashtag \<open>#x\<close>, username \<open>u\<close> and comment \<open>hi\<close>, the outcome is \<open>Fallback\<close> with
  exactly one headline: source \<open>TWITTER\<close>, title \<open>#x @u: hi\<close>, url
  \<open>https://twitter.com/u\<close>, and the instant of the call as \<open>ts\<close>.
\<close>

theorem tweets_directive_scenario:
  assumes "loadHeadlines_try e now s = Throw err s0"
    and "currentService s = Tweets" and "0 < maxHeadlines s"
    and "fetch_txt e (fallback_file Tweets) = Inr r"
    and "txt_lines (body r) = [''tweets-file /data/t.json'']"
    and "fetch_json e ''/data/t.json'' = Inr (PArray [Some i])"
    and "hashtag i = Some ''#x''" and "username i = Some ''u''" and "comment i = Some ''hi''"
  shows "value_of (loadHeadlines e now s) =
           Some (Fallback [Some (new_headline ''TWITTER'' ''#x @u: hi'' ''https://twitter.com/u'' now)])"
proof -
  let ?h = "Some (new_headline ''TWITTER'' ''#x @u: hi'' ''https://twitter.com/u'' now)"
  let ?s1 = "s0\<lparr>offlineMode := True, headlines := []\<rparr>"
  from loadHeadlines_try_Throw [OF assms(1)] assms(2,3)
  have svc: "currentService ?s1 = Tweets" and mx: "0 < maxHeadlines ?s1" by simp_all
  have dir: "find_directive Tweets [''tweets-file /data/t.json''] = Some ''tweets-file /data/t.json''"
    by (simp add: find_directive_def is_service_directive_def startsWith_def
                  toLowerCase_def toLowerCase_char_def)
  have ws: "split_ws ''tweets-file /data/t.json'' = [''tweets-file'', ''/data/t.json'']"
    by (simp add: split_ws_def is_space_def)
  have adapt: "mapItemToHeadline Tweets now (Some i) = Inr ?h"
    using assms(7,8,9)
    by (simp add: mapItemToHeadline_def tweet_title_def or_str_def truthy_def trim_def is_space_def)
  from mx obtain k where k: "maxHeadlines ?s1 = Suc k" by (cases "maxHeadlines ?s1") simp_all
  have "load_directive e now [''tweets-file /data/t.json''] ?s1 = ?s1\<lparr>headlines := [?h]\<rparr>"
    using svc k assms(6) dir ws adapt
    by (simp add: load_directive_def load_json_items_def)
  then have "headlines (load_lines e now [''tweets-file /data/t.json''] ?s1) = [?h]"
    by (simp add: load_lines_def load_direct_json_def load_plain_lines_def)
  with svc assms(4,5) have fb: "headlines (loadFallbackFromTxt e now ?s1) = [?h]"
    by (simp add: loadFallbackFromTxt_def)
  from renderHeadlines_cases [where e = e and now = now and s = "loadFallbackFromTxt e now ?s1"]
  have "value_of (loadHeadlines_catch e now s0) = Some (Fallback [?h])"
    by cases (use fb in \<open>simp_all add: loadHeadlines_catch_def Let_def\<close>)
  with assms(1) show ?thesis by (simp add: loadHeadlines_def)
qed

theorem tweets_directive_scenario_witness:
  "loadHeadlines_try tweets_world 1234 (ticker0 Tweets)
     = Throw NetworkError ((ticker0 Tweets)\<lparr>headlines := []\<rparr>) \<and>
   currentService (ticker0 Tweets) = Tweets \<and> 0 < maxHeadlines (ticker0 Tweets) \<and>
   fetch_txt tweets_world (fallback_file Tweets) = Inr (text_response ''tweets-file /data/t.json'') \<and>
   txt_lines (body (text_response ''tweets-file /data/t.json'')) = [''tweets-file /data/t.json''] \<and>
   fetch_json tweets_world ''/data/t.json'' = Inr (PArray [Some tweet_x]) \<and>
   hashtag tweet_x = Some ''#x'' \<and> username tweet_x = Some ''u'' \<and> comment tweet_x = Some ''hi'' \<and>
   value_of (loadHeadlines tweets_world 1234 (ticker0 Tweets))
     = Some (Fallback [Some (new_headline ''TWITTER'' ''#x @u: hi'' ''https://twitter.com/u'' 1234)])"
proof -
  have h1: "loadHeadlines_try tweets_world 1234 (ticker0 Tweets)
     = Throw NetworkError ((ticker0 Tweets)\<lparr>headlines := []\<rparr>)"
    by (simp add: loadHeadlines_try_def tweets_world_def world_def unreachable_def ticker0_def
                  remote_endpoint_def)
  have h2: "currentService (ticker0 Tweets) = Tweets" by (simp add: ticker0_def)
  have h3: "0 < maxHeadlines (ticker0 Tweets)" by (simp add: ticker0_def options_maxHeadlines_def)
  have h4: "fetch_txt tweets_world (fallback_file Tweets)
              = Inr (text_response ''tweets-file /data/t.json'')"
    by (simp add: fetch_txt_def tweets_world_def world_def text_response_def)
  have h5: "txt_lines (body (text_response ''tweets-file /data/t.json''))
              = [''tweets-file /data/t.json'']"
    by (simp add: txt_lines_def text_response_def trim_def is_space_def startsWith_def)
  have h6: "fetch_json tweets_world ''/data/t.json'' = Inr (PArray [Some tweet_x])"
    by (simp add: fetch_json_def tweets_world_def world_def json_response_def startsWith_def)
  have h7: "hashtag tweet_x = Some ''#x''" by (simp add: tweet_x_def)
  have h8: "username tweet_x = Some ''u''" by (simp add: tweet_x_def)
  have h9: "comment tweet_x = Some ''hi''" by (simp add: tweet_x_def)
  from tweets_directive_scenario [OF h1 h2 h3 h4 h5 h6 h7 h8 h9] h1 h2 h3 h4 h5 h6 h7 h8 h9
  show ?thesis by simp
qed

end
